theory Spec2Isabelle
  imports Main "HOL-Library.Sublist"
begin

section \<open>Values exchanged with the control plane\<close>

text \<open>
  The two scripts \<^verbatim>\<open>provision.py\<close> (the builder) and \<^verbatim>\<open>destroy.py\<close> (the reaper) talk
  to the cloud control plane through boto3 clients. Everything they do beyond computing
  strings is an effect: an API call, a \<^verbatim>\<open>time.sleep\<close> or a \<^verbatim>\<open>print\<close>. The embedding makes
  each effect an event of a history, and the control plane a function that answers a call
  from the history so far.
\<close>

text \<open>A tag is a \<^verbatim>\<open>{"Key": k, "Value": v}\<close> dictionary.\<close>

type_synonym tag = "string \<times> string"

text \<open>One entry of \<^verbatim>\<open>TagSpecifications\<close>: \<^verbatim>\<open>{"ResourceType": t, "Tags": [...]}\<close>.\<close>

type_synonym tag_specification = "string \<times> tag list"

text \<open>An Auto Scaling tag: key, value and \<^verbatim>\<open>PropagateAtLaunch\<close>.\<close>

type_synonym asg_tag = "string \<times> string \<times> bool"

text \<open>
  A resource as a describe call lists it. \<open>ident\<close> is the identifier the scripts read
  (\<^verbatim>\<open>AutoScalingGroupName\<close>, \<^verbatim>\<open>LoadBalancerArn\<close>, \<^verbatim>\<open>TargetGroupArn\<close>, \<^verbatim>\<open>LaunchTemplateId\<close>,
  \<^verbatim>\<open>GroupId\<close>, \<^verbatim>\<open>VpcId\<close>, \<^verbatim>\<open>InternetGatewayId\<close>, \<^verbatim>\<open>SubnetId\<close>, \<^verbatim>\<open>RouteTableId\<close>), \<open>res_name\<close> the
  name (\<^verbatim>\<open>LoadBalancerName\<close>, \<^verbatim>\<open>TargetGroupName\<close>, \<^verbatim>\<open>LaunchTemplateName\<close>), \<open>Tags\<close> the value of
  \<^verbatim>\<open>obj.get("Tags", [])\<close>, and \<open>Associations\<close> the value of \<^verbatim>\<open>a.get("Main")\<close> for each
  association of a route table, read as a truth value.
\<close>

record resource =
  ident :: string
  res_name :: string
  Tags :: "tag list"
  Associations :: "bool list"

text \<open>
  The fields the scripts read from a successful response. boto3 parses every response
  against the service model, so a field that a script reads is present; a field that a call
  does not return is left empty and never read.
\<close>

record payload =
  ResourceId :: string
  DNSName :: string
  StateCode :: string
  ZoneNames :: "string list"
  Items :: "resource list"

datatype exn =
    ClientError (error_code: string) (operation_name: string)
                (retry_info: string) (error_message: string)
  | RuntimeError string
  | SystemExit string
  | IndexError
  | OtherError string

text \<open>
  \<^verbatim>\<open>str(e)\<close>. For a \<^verbatim>\<open>botocore.exceptions.ClientError\<close> this is botocore's message template
  \<^verbatim>\<open>An error occurred ({error_code}) when calling the {operation_name} operation{retry_info}: {error_message}\<close>;
  for the other exceptions it is the message they carry.
\<close>

fun str_exn :: "exn \<Rightarrow> string" where
  "str_exn (ClientError code opn info msg) =
     ''An error occurred ('' @ code @ '') when calling the '' @ opn @ '' operation''
       @ info @ '': '' @ msg"
| "str_exn (RuntimeError m) = m"
| "str_exn (SystemExit m) = m"
| "str_exn IndexError = ''list index out of range''"
| "str_exn (OtherError m) = m"

datatype response = Return payload | Raise exn

text \<open>
  \<^verbatim>\<open>LaunchTemplateData\<close>. \<open>UserData\<close> holds the script text whose Base64 encoding
  (\<^verbatim>\<open>base64.b64encode(USER_DATA.encode("utf-8")).decode("utf-8")\<close>) is sent.
\<close>

record launch_template_data =
  ImageId :: string
  InstanceType :: string
  SecurityGroupIds :: "string list"
  TagSpecifications :: "tag_specification list"
  KeyName :: "string option"
  IamInstanceProfile :: "string option"
  UserData :: "string option"

text \<open>
  The API operations the two scripts invoke, with the arguments that vary. Arguments that
  are literals at the single call site (protocol \<^verbatim>\<open>TCP\<close>, port 443, the health check, the
  ingress rule, \<^verbatim>\<open>"Value": True\<close>) are part of the constructor's meaning.
\<close>

datatype api_call =
    DescribeAvailabilityZones
  | CreateVpc string "tag_specification list"
  | ModifyVpcAttribute string string
  | CreateInternetGateway "tag_specification list"
  | AttachInternetGateway string string
  | CreateRouteTable string "tag_specification list"
  | CreateRoute string string string
  | CreateSubnet string string string "tag_specification list"
  | ModifySubnetAttribute string
  | AssociateRouteTable string string
  | CreateSecurityGroup string string string "tag_specification list"
  | AuthorizeSecurityGroupIngress string
  | CreateTargetGroup string string "tag list"
  | CreateLoadBalancer string "string list" "tag list"
  | DescribeLoadBalancers "string list option"
  | CreateListener string string
  | CreateLaunchTemplate string launch_template_data "tag_specification list"
  | CreateAutoScalingGroup string int int int string string "string list" "asg_tag list"
  | DescribeAutoScalingGroups
  | UpdateAutoScalingGroup string int int int
  | DeleteAutoScalingGroup string bool
  | DeleteLoadBalancer string
  | DescribeTargetGroups
  | DeleteTargetGroup string
  | DescribeLaunchTemplates
  | DeleteLaunchTemplate string
  | DescribeSecurityGroups
  | DeleteSecurityGroup string
  | DescribeVpcs
  | DescribeInternetGateways string
  | DetachInternetGateway string string
  | DeleteInternetGateway string
  | DescribeSubnets string
  | DeleteSubnet string
  | DescribeRouteTables string
  | DeleteRouteTable string
  | DeleteVpc string

text \<open>The JSON value the builder prints at the end (\<^verbatim>\<open>json.dumps\<close> of a dictionary).\<close>

datatype json = JString string | JList "json list" | JObject "(string \<times> json) list"

datatype event =
    Call api_call response
  | Sleep nat
  | Print string
  | PrintJson json

type_synonym history = "event list"

text \<open>The control plane: the answer to a call, given everything that happened before it.\<close>

type_synonym control_plane = "history \<Rightarrow> api_call \<Rightarrow> response"

section \<open>Effectful programs\<close>

text \<open>
  A run either finishes with a value, or ends in an uncaught exception, or is still inside
  the \<^verbatim>\<open>while True\<close> of \<^verbatim>\<open>retry\<close> when the fuel of the model runs out.
\<close>

datatype 'a outcome = Done 'a | Raised exn | Spinning

type_synonym 'a prog = "history \<Rightarrow> 'a outcome \<times> history"

definition return_p :: "'a \<Rightarrow> 'a prog" where
  "return_p a h = (Done a, h)"

definition raise :: "exn \<Rightarrow> 'a prog" where
  "raise e h = (Raised e, h)"

definition bind_p :: "'a prog \<Rightarrow> ('a \<Rightarrow> 'b prog) \<Rightarrow> 'b prog" where
  "bind_p m f h =
     (case m h of
        (Done a, h') \<Rightarrow> f a h'
      | (Raised e, h') \<Rightarrow> (Raised e, h')
      | (Spinning, h') \<Rightarrow> (Spinning, h'))"

definition then_p :: "'a prog \<Rightarrow> 'b prog \<Rightarrow> 'b prog" where
  "then_p m n = bind_p m (\<lambda>_. n)"

definition emit :: "event \<Rightarrow> unit prog" where
  "emit e h = (Done (), h @ [e])"

definition print :: "string \<Rightarrow> unit prog" where
  "print s = emit (Print s)"

definition sleep :: "nat \<Rightarrow> unit prog" where
  "sleep n = emit (Sleep n)"

definition call :: "control_plane \<Rightarrow> api_call \<Rightarrow> payload prog" where
  "call cp c h =
     (case cp h c of
        Return p \<Rightarrow> (Done p, h @ [Call c (Return p)])
      | Raise e \<Rightarrow> (Raised e, h @ [Call c (Raise e)]))"

text \<open>\<^verbatim>\<open>for x in xs: body\<close>, without \<^verbatim>\<open>break\<close>.\<close>

fun for_each :: "'x list \<Rightarrow> ('x \<Rightarrow> unit prog) \<Rightarrow> unit prog" where
  "for_each [] body = return_p ()"
| "for_each (x # xs) body = then_p (body x) (for_each xs body)"

text \<open>\<^verbatim>\<open>if c: body\<close> as a statement.\<close>

definition when_p :: "bool \<Rightarrow> unit prog \<Rightarrow> unit prog" where
  "when_p c body = (if c then body else return_p ())"

section \<open>The builder: provision.py\<close>

text \<open>
  The block of constants under \<^verbatim>\<open>CONFIG (EDIT THESE)\<close>. The builder is a function of this
  block, so that a statement about every configuration can be made; \<open>source_config\<close> holds
  the values the file has.
\<close>

record config =
  NAME :: string
  AMI_ID :: string
  INSTANCE_TYPE :: string
  VPC_CIDR :: string
  PUBLIC_SUBNET_CIDRS :: "string list"
  MIN_SIZE :: int
  MAX_SIZE :: int
  DESIRED :: int
  KEY_NAME :: "string option"
  INSTANCE_PROFILE_NAME :: "string option"
  USER_DATA :: "string option"

definition source_config :: config where
  "source_config =
     \<lparr> NAME = ''s3-file-manager'',
       AMI_ID = ''ami-08dcef8cfdf0ece49'',
       INSTANCE_TYPE = ''t3.micro'',
       VPC_CIDR = ''10.50.0.0/16'',
       PUBLIC_SUBNET_CIDRS = [''10.50.10.0/24'', ''10.50.20.0/24''],
       MIN_SIZE = 2,
       MAX_SIZE = 4,
       DESIRED = 2,
       KEY_NAME = None,
       INSTANCE_PROFILE_NAME = None,
       USER_DATA = None \<rparr>"

text \<open>\<^verbatim>\<open>REGION = os.environ.get("AWS_REGION", "us-east-1")\<close>, from the process environment.\<close>

definition REGION :: "string option \<Rightarrow> string" where
  "REGION aws_region = (case aws_region of None \<Rightarrow> ''us-east-1'' | Some r \<Rightarrow> r)"

definition tag_spec :: "config \<Rightarrow> string \<Rightarrow> string \<Rightarrow> tag_specification list" where
  "tag_spec cfg resource_type name =
     [(resource_type, [(''Name'', name), (''stack'', NAME cfg)])]"

definition wait :: "string \<Rightarrow> nat \<Rightarrow> unit prog" where
  "wait msg seconds = then_p (print msg) (sleep seconds)"

text \<open>Decimal text of a Python integer, as an f-string renders it.\<close>

fun str_nat :: "nat \<Rightarrow> string" where
  "str_nat n =
     (if n < 10 then [''0123456789'' ! n]
      else str_nat (n div 10) @ [''0123456789'' ! (n mod 10)])"

declare str_nat.simps [simp del]

definition str_int :: "int \<Rightarrow> string" where
  "str_int i = (if i < 0 then ''-'' @ str_nat (nat (- i)) else str_nat (nat i))"

text \<open>\<^verbatim>\<open>xs[i]\<close> for a non-negative literal index: IndexError when out of range.\<close>

definition index :: "'a list \<Rightarrow> nat \<Rightarrow> 'a prog" where
  "index xs i = (if i < length xs then return_p (xs ! i) else raise IndexError)"

text \<open>Python truthiness of an optional string: \<^verbatim>\<open>None\<close> and the empty string are false.\<close>

definition truthy :: "string option \<Rightarrow> string option" where
  "truthy v = (case v of None \<Rightarrow> None | Some s \<Rightarrow> if s = [] then None else Some s)"

text \<open>\<^verbatim>\<open>",".join(xs)\<close>\<close>

fun join_comma :: "string list \<Rightarrow> string" where
  "join_comma [] = []"
| "join_comma [x] = x"
| "join_comma (x # y # ys) = x @ '','' @ join_comma (y # ys)"

definition pick_two_azs :: "control_plane \<Rightarrow> (string \<times> string) prog" where
  "pick_two_azs cp =
     bind_p (call cp DescribeAvailabilityZones) (\<lambda>resp.
       let names = ZoneNames resp in
       if length names < 2 then raise (RuntimeError ''Need at least 2 AZs in this region.'')
       else return_p (names ! 0, names ! 1))"

definition create_vpc :: "config \<Rightarrow> control_plane \<Rightarrow> string prog" where
  "create_vpc cfg cp =
     bind_p (call cp (CreateVpc (VPC_CIDR cfg) (tag_spec cfg ''vpc'' (NAME cfg @ ''-vpc''))))
       (\<lambda>resp.
     let vpc_id = ResourceId resp in
     then_p (call cp (ModifyVpcAttribute vpc_id ''EnableDnsSupport''))
    (then_p (call cp (ModifyVpcAttribute vpc_id ''EnableDnsHostnames''))
    (then_p (print (''VPC: '' @ vpc_id))
    (return_p vpc_id))))"

definition create_igw :: "config \<Rightarrow> control_plane \<Rightarrow> string \<Rightarrow> string prog" where
  "create_igw cfg cp vpc_id =
     bind_p (call cp (CreateInternetGateway
                        (tag_spec cfg ''internet-gateway'' (NAME cfg @ ''-igw''))))
       (\<lambda>igw.
     let igw_id = ResourceId igw in
     then_p (call cp (AttachInternetGateway igw_id vpc_id))
    (then_p (print (''IGW: '' @ igw_id))
    (return_p igw_id)))"

definition create_route_table ::
  "config \<Rightarrow> control_plane \<Rightarrow> string \<Rightarrow> string \<Rightarrow> string prog" where
  "create_route_table cfg cp vpc_id igw_id =
     bind_p (call cp (CreateRouteTable vpc_id
                        (tag_spec cfg ''route-table'' (NAME cfg @ ''-public-rt''))))
       (\<lambda>rt.
     let rt_id = ResourceId rt in
     then_p (call cp (CreateRoute rt_id ''0.0.0.0/0'' igw_id))
    (then_p (print (''RouteTable: '' @ rt_id))
    (return_p rt_id)))"

definition create_public_subnet ::
  "config \<Rightarrow> control_plane \<Rightarrow> string \<Rightarrow> string \<Rightarrow> string \<Rightarrow> string \<Rightarrow> int \<Rightarrow> string prog"
  where
  "create_public_subnet cfg cp vpc_id cidr az rt_id idx =
     bind_p (call cp (CreateSubnet vpc_id cidr az
                        (tag_spec cfg ''subnet''
                           (NAME cfg @ ''-public-subnet-'' @ str_int (idx + 1)))))
       (\<lambda>subnet.
     let subnet_id = ResourceId subnet in
     then_p (call cp (ModifySubnetAttribute subnet_id))
    (then_p (call cp (AssociateRouteTable subnet_id rt_id))
    (then_p (print (''Subnet ('' @ az @ ''): '' @ subnet_id @ ''  CIDR='' @ cidr))
    (return_p subnet_id))))"

definition create_ec2_sg :: "config \<Rightarrow> control_plane \<Rightarrow> string \<Rightarrow> string prog" where
  "create_ec2_sg cfg cp vpc_id =
     bind_p (call cp (CreateSecurityGroup (NAME cfg @ ''-ec2-sg'')
                        ''Allow 443 from NLB to instances'' vpc_id
                        (tag_spec cfg ''security-group'' (NAME cfg @ ''-ec2-sg''))))
       (\<lambda>sg.
     let sg_id = ResourceId sg in
     then_p (call cp (AuthorizeSecurityGroupIngress sg_id))
    (then_p (print (''EC2 SG: '' @ sg_id))
    (return_p sg_id)))"

definition create_target_group :: "config \<Rightarrow> control_plane \<Rightarrow> string \<Rightarrow> string prog" where
  "create_target_group cfg cp vpc_id =
     (let tg_name = NAME cfg @ ''-tg-443'' in
      bind_p (call cp (CreateTargetGroup tg_name vpc_id
                         [(''stack'', NAME cfg), (''Name'', tg_name)]))
        (\<lambda>resp.
      let tg_arn = ResourceId resp in
      then_p (print (''TargetGroup: '' @ tg_arn))
     (return_p tg_arn)))"

text \<open>
  The loop \<^verbatim>\<open>for _ in range(30)\<close> of \<^verbatim>\<open>create_nlb\<close>, with the number of iterations left:
  describe, \<^verbatim>\<open>break\<close> on \<^verbatim>\<open>active\<close>, otherwise \<^verbatim>\<open>wait\<close> two seconds.
\<close>

fun wait_until_active :: "control_plane \<Rightarrow> string \<Rightarrow> nat \<Rightarrow> unit prog" where
  "wait_until_active cp lb_arn 0 = return_p ()"
| "wait_until_active cp lb_arn (Suc n) =
     bind_p (call cp (DescribeLoadBalancers (Some [lb_arn]))) (\<lambda>desc.
       if StateCode desc = ''active'' then return_p ()
       else then_p (wait ''Waiting for NLB to become active...'' 2)
                   (wait_until_active cp lb_arn n))"

definition create_nlb ::
  "config \<Rightarrow> control_plane \<Rightarrow> string list \<Rightarrow> (string \<times> string) prog" where
  "create_nlb cfg cp subnet_ids =
     (let lb_name = NAME cfg @ ''-nlb'' in
      bind_p (call cp (CreateLoadBalancer lb_name subnet_ids
                         [(''stack'', NAME cfg), (''Name'', lb_name)]))
        (\<lambda>lb.
      let lb_arn = ResourceId lb; lb_dns = DNSName lb in
      then_p (print (''NLB: '' @ lb_arn))
     (then_p (print (''NLB DNS: '' @ lb_dns))
     (then_p (wait_until_active cp lb_arn 30)
     (return_p (lb_arn, lb_dns))))))"

definition create_nlb_listener_tcp_443 ::
  "control_plane \<Rightarrow> string \<Rightarrow> string \<Rightarrow> string prog" where
  "create_nlb_listener_tcp_443 cp lb_arn tg_arn =
     bind_p (call cp (CreateListener lb_arn tg_arn)) (\<lambda>resp.
     let listener_arn = ResourceId resp in
     then_p (print (''Listener TCP:443: '' @ listener_arn))
    (return_p listener_arn))"

definition create_launch_template :: "config \<Rightarrow> control_plane \<Rightarrow> string \<Rightarrow> string prog" where
  "create_launch_template cfg cp sg_id =
     (let lt_name = NAME cfg @ ''-lt'';
          data = \<lparr> ImageId = AMI_ID cfg,
                   InstanceType = INSTANCE_TYPE cfg,
                   SecurityGroupIds = [sg_id],
                   TagSpecifications =
                     [(''instance'', [(''Name'', NAME cfg @ ''-instance''),
                                      (''stack'', NAME cfg)]),
                      (''volume'', [(''Name'', NAME cfg @ ''-volume''),
                                    (''stack'', NAME cfg)])],
                   KeyName = truthy (KEY_NAME cfg),
                   IamInstanceProfile = truthy (INSTANCE_PROFILE_NAME cfg),
                   UserData = truthy (USER_DATA cfg) \<rparr> in
      bind_p (call cp (CreateLaunchTemplate lt_name data
                         (tag_spec cfg ''launch-template'' lt_name)))
        (\<lambda>resp.
      let lt_id = ResourceId resp in
      then_p (print (''LaunchTemplate: '' @ lt_id))
     (return_p lt_id)))"

definition create_asg ::
  "config \<Rightarrow> control_plane \<Rightarrow> string \<Rightarrow> string list \<Rightarrow> string \<Rightarrow> string prog" where
  "create_asg cfg cp lt_id subnet_ids tg_arn =
     (let asg_name = NAME cfg @ ''-asg'' in
      then_p (call cp (CreateAutoScalingGroup asg_name
                         (MIN_SIZE cfg) (MAX_SIZE cfg) (DESIRED cfg)
                         (join_comma subnet_ids) lt_id [tg_arn]
                         [(''Name'', asg_name, True), (''stack'', NAME cfg, True)]))
     (then_p (print (''ASG: '' @ asg_name))
     (return_p asg_name)))"

text \<open>The line \<^verbatim>\<open>print("\n... DONE")\<close>; the bytes are those of the source file.\<close>

definition done_banner :: string where
  "done_banner =
     [CHR 0x0A, CHR 0xC3, CHR 0xA2, CHR 0xC5, CHR 0x93, CHR 0xE2, CHR 0x80, CHR 0xA6]
       @ '' DONE''"

text \<open>
  \<^verbatim>\<open>main()\<close>; \<open>aws_region\<close> is the value of the environment variable \<^verbatim>\<open>AWS_REGION\<close>, if set.
\<close>

definition main :: "config \<Rightarrow> string option \<Rightarrow> control_plane \<Rightarrow> unit prog" where
  "main cfg aws_region cp =
     (if \<not> prefix ''ami-'' (AMI_ID cfg) \<or> CHR ''x'' \<in> set (AMI_ID cfg)
      then raise (SystemExit ''Edit AMI_ID at top of file (must be a real ami-...).'')
      else
        bind_p (pick_two_azs cp) (\<lambda>(az1, az2).
        then_p (print (''Using AZs: '' @ az1 @ '', '' @ az2))
       (bind_p (create_vpc cfg cp) (\<lambda>vpc_id.
        bind_p (create_igw cfg cp vpc_id) (\<lambda>igw_id.
        bind_p (create_route_table cfg cp vpc_id igw_id) (\<lambda>rt_id.
        bind_p (index (PUBLIC_SUBNET_CIDRS cfg) 0) (\<lambda>cidr1.
        bind_p (create_public_subnet cfg cp vpc_id cidr1 az1 rt_id 0) (\<lambda>subnet1.
        bind_p (index (PUBLIC_SUBNET_CIDRS cfg) 1) (\<lambda>cidr2.
        bind_p (create_public_subnet cfg cp vpc_id cidr2 az2 rt_id 1) (\<lambda>subnet2.
        bind_p (create_ec2_sg cfg cp vpc_id) (\<lambda>sg_id.
        bind_p (create_target_group cfg cp vpc_id) (\<lambda>tg_arn.
        bind_p (create_nlb cfg cp [subnet1, subnet2]) (\<lambda>(lb_arn, lb_dns).
        then_p (create_nlb_listener_tcp_443 cp lb_arn tg_arn)
       (bind_p (create_launch_template cfg cp sg_id) (\<lambda>lt_id.
        bind_p (create_asg cfg cp lt_id [subnet1, subnet2] tg_arn) (\<lambda>asg_name.
        then_p (print done_banner)
       (emit (PrintJson (JObject
          [(''region'', JString (REGION aws_region)),
           (''vpc_id'', JString vpc_id),
           (''subnets'', JList [JString subnet1, JString subnet2]),
           (''ec2_sg'', JString sg_id),
           (''target_group_arn'', JString tg_arn),
           (''nlb_arn'', JString lb_arn),
           (''nlb_dns'', JString lb_dns),
           (''launch_template_id'', JString lt_id),
           (''asg_name'', JString asg_name),
           (''url'', JString (''https://'' @ lb_dns
                @ ''/  (TCP passthrough, TLS terminates on EC2)''))])))))))))))))))))))"

section \<open>The reaper: destroy.py\<close>

definition STACK :: string where
  "STACK = ''s3-file-manager''"

text \<open>Glyphs of the printed banners, as the UTF-8 bytes of the source file.\<close>

definition firecracker :: string where
  "firecracker = [CHR 0xF0, CHR 0x9F, CHR 0xA7, CHR 0xA8]"

definition fire :: string where
  "fire = [CHR 0xF0, CHR 0x9F, CHR 0x94, CHR 0xA5]"

definition em_dash :: string where
  "em_dash = [CHR 0xE2, CHR 0x80, CHR 0x94]"

text \<open>
  The test of \<^verbatim>\<open>retry\<close>:
  \<^verbatim>\<open>"DependencyViolation" in str(e) or "ResourceInUse" in str(e)\<close>.
\<close>

definition is_transient :: "exn \<Rightarrow> bool" where
  "is_transient e \<longleftrightarrow>
     sublist ''DependencyViolation'' (str_exn e) \<or> sublist ''ResourceInUse'' (str_exn e)"

text \<open>\<^verbatim>\<open>except botocore.exceptions.ClientError\<close> catches this class only.\<close>

fun isinstance_ClientError :: "exn \<Rightarrow> bool" where
  "isinstance_ClientError (ClientError code opn info msg) = True"
| "isinstance_ClientError e = False"

text \<open>The line \<^verbatim>\<open>retry\<close> prints before it sleeps.\<close>

definition waiting_line :: "string \<Rightarrow> string" where
  "waiting_line msg = ''   '' @ msg @ '' '' @ em_dash @ '' waiting...''"

text \<open>
  \<^verbatim>\<open>retry(msg, fn, delay=15)\<close>. The loop \<^verbatim>\<open>while True\<close> has no bound; \<open>fuel\<close> is the
  number of invocations of \<open>fn\<close> the model follows before it reports \<open>Spinning\<close>.
\<close>

fun retry :: "nat \<Rightarrow> string \<Rightarrow> 'a prog \<Rightarrow> nat \<Rightarrow> unit prog" where
  "retry 0 msg fn delay h = (Spinning, h)"
| "retry (Suc fuel) msg fn delay h =
     (case fn h of
        (Done a, h') \<Rightarrow> (Done (), h')
      | (Raised e, h') \<Rightarrow>
          if isinstance_ClientError e then
            if is_transient e
            then retry fuel msg fn delay (h' @ [Print (waiting_line msg), Sleep delay])
            else (Raised e, h')
          else (Raised e, h')
      | (Spinning, h') \<Rightarrow> (Spinning, h'))"

text \<open>
  \<^verbatim>\<open>any(t["Key"] == "stack" and t["Value"] == STACK for t in obj.get("Tags", []))\<close>
\<close>

definition has_stack_tag :: "resource \<Rightarrow> bool" where
  "has_stack_tag obj = list_ex (\<lambda>t. fst t = ''stack'' \<and> snd t = STACK) (Tags obj)"

text \<open>A call whose response is not read.\<close>

definition call_unit :: "control_plane \<Rightarrow> api_call \<Rightarrow> unit prog" where
  "call_unit cp c = then_p (call cp c) (return_p ())"

text \<open>
  The module body, one definition per commented block of the file. Every \<^verbatim>\<open>retry\<close> is
  called with the default delay of 15 seconds.
\<close>

definition delete_asgs :: "control_plane \<Rightarrow> unit prog" where
  "delete_asgs cp =
     then_p (print (firecracker @ '' Deleting Auto Scaling Groups''))
    (bind_p (call cp DescribeAutoScalingGroups) (\<lambda>resp.
     for_each (Items resp) (\<lambda>g.
       when_p (has_stack_tag g)
         (let name = ident g in
          then_p (print (''  ASG: '' @ name))
         (then_p (call_unit cp (UpdateAutoScalingGroup name 0 0 0))
         (then_p (sleep 20)
         (call_unit cp (DeleteAutoScalingGroup name True))))))))"

definition delete_nlbs :: "control_plane \<Rightarrow> unit prog" where
  "delete_nlbs cp =
     then_p (print (firecracker @ '' Deleting Network Load Balancers''))
    (then_p (bind_p (call cp (DescribeLoadBalancers None)) (\<lambda>resp.
       for_each (Items resp) (\<lambda>lb.
         when_p (sublist STACK (res_name lb))
           (then_p (print (''  NLB: '' @ res_name lb))
           (call_unit cp (DeleteLoadBalancer (ident lb)))))))
    (then_p (print ''   Waiting for NLBs to release ENIs...'')
    (sleep 60)))"

definition delete_target_groups :: "nat \<Rightarrow> control_plane \<Rightarrow> unit prog" where
  "delete_target_groups fuel cp =
     then_p (print (firecracker @ '' Deleting Target Groups''))
    (bind_p (call cp DescribeTargetGroups) (\<lambda>resp.
     for_each (Items resp) (\<lambda>tg.
       when_p (sublist STACK (res_name tg))
         (then_p (print (''  TG: '' @ res_name tg))
         (retry fuel ''TG busy'' (call cp (DeleteTargetGroup (ident tg))) 15)))))"

definition delete_launch_templates :: "control_plane \<Rightarrow> unit prog" where
  "delete_launch_templates cp =
     then_p (print (firecracker @ '' Deleting Launch Templates''))
    (bind_p (call cp DescribeLaunchTemplates) (\<lambda>resp.
     for_each (Items resp) (\<lambda>lt.
       when_p (sublist STACK (res_name lt))
         (then_p (print (''  LT: '' @ res_name lt))
         (call_unit cp (DeleteLaunchTemplate (ident lt)))))))"

definition delete_security_groups :: "nat \<Rightarrow> control_plane \<Rightarrow> unit prog" where
  "delete_security_groups fuel cp =
     then_p (print (firecracker @ '' Deleting Security Groups''))
    (bind_p (call cp DescribeSecurityGroups) (\<lambda>resp.
     for_each (Items resp) (\<lambda>sg.
       when_p (has_stack_tag sg)
         (then_p (print (''  SG: '' @ ident sg))
         (retry fuel ''SG in use'' (call cp (DeleteSecurityGroup (ident sg))) 15)))))"

definition delete_igws :: "nat \<Rightarrow> control_plane \<Rightarrow> string \<Rightarrow> unit prog" where
  "delete_igws fuel cp vpc_id =
     bind_p (call cp (DescribeInternetGateways vpc_id)) (\<lambda>igws.
     for_each (Items igws) (\<lambda>igw.
       let igw_id = ident igw in
       then_p (print (''   IGW: '' @ igw_id))
      (then_p (retry fuel ''IGW detach blocked''
                 (call cp (DetachInternetGateway igw_id vpc_id)) 15)
      (retry fuel ''IGW delete blocked'' (call cp (DeleteInternetGateway igw_id)) 15))))"

definition delete_subnets :: "nat \<Rightarrow> control_plane \<Rightarrow> string \<Rightarrow> unit prog" where
  "delete_subnets fuel cp vpc_id =
     bind_p (call cp (DescribeSubnets vpc_id)) (\<lambda>resp.
     for_each (Items resp) (\<lambda>s.
       then_p (print (''   Subnet: '' @ ident s))
      (retry fuel ''Subnet in use'' (call cp (DeleteSubnet (ident s))) 15)))"

definition delete_route_tables :: "nat \<Rightarrow> control_plane \<Rightarrow> string \<Rightarrow> unit prog" where
  "delete_route_tables fuel cp vpc_id =
     bind_p (call cp (DescribeRouteTables vpc_id)) (\<lambda>resp.
     for_each (Items resp) (\<lambda>rt.
       when_p (\<not> list_ex (\<lambda>a. a) (Associations rt))
         (then_p (print (''   Route Table: '' @ ident rt))
         (retry fuel ''RT in use'' (call cp (DeleteRouteTable (ident rt))) 15))))"

definition delete_vpcs :: "nat \<Rightarrow> control_plane \<Rightarrow> unit prog" where
  "delete_vpcs fuel cp =
     then_p (print (firecracker @ '' Deleting VPC and network''))
    (bind_p (call cp DescribeVpcs) (\<lambda>resp.
     for_each (Items resp) (\<lambda>vpc.
       when_p (has_stack_tag vpc)
         (let vpc_id = ident vpc in
          then_p (print (''  VPC: '' @ vpc_id))
         (then_p (delete_igws fuel cp vpc_id)
         (then_p (delete_subnets fuel cp vpc_id)
         (then_p (delete_route_tables fuel cp vpc_id)
         (retry fuel ''VPC busy'' (call cp (DeleteVpc vpc_id)) 15))))))))"

definition destroy :: "nat \<Rightarrow> control_plane \<Rightarrow> unit prog" where
  "destroy fuel cp =
     then_p (delete_asgs cp)
    (then_p (delete_nlbs cp)
    (then_p (delete_target_groups fuel cp)
    (then_p (delete_launch_templates cp)
    (then_p (delete_security_groups fuel cp)
    (then_p (delete_vpcs fuel cp)
    (print ([CHR 0x0A] @ fire @ '' ALL STACK RESOURCES DESTROYED '' @ fire)))))))"

text \<open>
  \<^verbatim>\<open>config.py\<close>: a module of constants that stands beside the two scripts. Neither script
  has an import of it.
\<close>

record config_py =
  cfg_REGION :: string
  PROJECT_TAG :: tag
  ENV_TAG :: tag
  cfg_VPC_CIDR :: string
  SUBNET_CIDR :: string
  ASG_MIN :: int
  ASG_DESIRED :: int
  ASG_MAX :: int
  CPU_TARGET :: int

definition source_config_py :: config_py where
  "source_config_py =
     \<lparr> cfg_REGION = ''us-east-1'',
       PROJECT_TAG = (''Project'', ''cpu-stress''),
       ENV_TAG = (''Env'', ''dev''),
       cfg_VPC_CIDR = ''10.0.0.0/16'',
       SUBNET_CIDR = ''10.0.1.0/24'',
       ASG_MIN = 1,
       ASG_DESIRED = 1,
       ASG_MAX = 5,
       CPU_TARGET = 50 \<rparr>"



section \<open>Properties of histories\<close>

text \<open>
  A property of the order of events is checked by a monitor: a state, and a step function
  that consumes one event and either moves on or rejects. \<open>run\<close> feeds a history to a
  monitor.
\<close>

fun run :: "('s \<Rightarrow> event \<Rightarrow> 's option) \<Rightarrow> 's \<Rightarrow> history \<Rightarrow> 's option" where
  "run step s [] = Some s"
| "run step s (e # es) = (case step s e of None \<Rightarrow> None | Some s' \<Rightarrow> run step s' es)"

text \<open>
  \<open>obeys step P m Q X\<close>: started at any history, with the monitor in a state that satisfies
  \<open>P\<close>, the program \<open>m\<close> only appends events, the monitor accepts them, and it ends in a state
  that satisfies \<open>Q\<close> when \<open>m\<close> returns, \<open>X (Some e)\<close> when \<open>m\<close> raises \<open>e\<close>, and \<open>X None\<close> when the
  fuel has run out.
\<close>

definition ended :: "('a \<Rightarrow> 's \<Rightarrow> bool) \<Rightarrow> (exn option \<Rightarrow> 's \<Rightarrow> bool) \<Rightarrow> 'a outcome \<Rightarrow> 's \<Rightarrow> bool"
  where
  "ended Q X r s = (case r of Done a \<Rightarrow> Q a s | Raised e \<Rightarrow> X (Some e) s | Spinning \<Rightarrow> X None s)"

definition obeys ::
  "('s \<Rightarrow> event \<Rightarrow> 's option) \<Rightarrow> ('s \<Rightarrow> bool) \<Rightarrow> 'a prog
     \<Rightarrow> ('a \<Rightarrow> 's \<Rightarrow> bool) \<Rightarrow> (exn option \<Rightarrow> 's \<Rightarrow> bool) \<Rightarrow> bool" where
  "obeys step P m Q X \<longleftrightarrow>
     (\<forall>h s. P s \<longrightarrow>
        (\<exists>ext s'. snd (m h) = h @ ext \<and> run step s ext = Some s' \<and> ended Q X (fst (m h)) s'))"

text \<open>
  The rule for \<^verbatim>\<open>retry\<close>: after an error that is caught, the line and the sleep must lead
  back to the invariant.
\<close>

definition after_failure ::
  "('s \<Rightarrow> event \<Rightarrow> 's option) \<Rightarrow> string \<Rightarrow> nat \<Rightarrow> ('s \<Rightarrow> bool)
     \<Rightarrow> (exn option \<Rightarrow> 's \<Rightarrow> bool) \<Rightarrow> exn option \<Rightarrow> 's \<Rightarrow> bool" where
  "after_failure step msg delay I X x s =
     (case x of
        None \<Rightarrow> X None s
      | Some e \<Rightarrow>
          if isinstance_ClientError e \<and> is_transient e
          then \<exists>s1 s2. step s (Print (waiting_line msg)) = Some s1
                 \<and> step s1 (Sleep delay) = Some s2 \<and> I s2
          else X (Some e) s)"

text \<open>\<open>only A m\<close>: every event that \<open>m\<close> appends satisfies \<open>A\<close>.\<close>

definition guard :: "(event \<Rightarrow> bool) \<Rightarrow> unit \<Rightarrow> event \<Rightarrow> unit option" where
  "guard A u e = (if A e then Some () else None)"

definition only :: "(event \<Rightarrow> bool) \<Rightarrow> 'a prog \<Rightarrow> bool" where
  "only A m \<longleftrightarrow> obeys (guard A) (\<lambda>u. True) m (\<lambda>a u. True) (\<lambda>e u. True)"

text \<open>A simulated control plane answers with payloads built from the empty one.\<close>

definition empty_payload :: payload where
  "empty_payload =
     \<lparr> ResourceId = [], DNSName = [], StateCode = [], ZoneNames = [], Items = [] \<rparr>"

definition named :: "string \<Rightarrow> payload" where
  "named i = empty_payload \<lparr> ResourceId := i \<rparr>"

definition listing :: "resource list \<Rightarrow> payload" where
  "listing rs = empty_payload \<lparr> Items := rs \<rparr>"

text \<open>
  A control plane on which the builder succeeds: two zones, a fresh identifier for each
  created resource, and a load balancer that is active at the first poll.
\<close>

definition cp_accepting :: control_plane where
  "cp_accepting h c =
     (case c of
        DescribeAvailabilityZones \<Rightarrow>
          Return (empty_payload \<lparr> ZoneNames := [''us-east-1a'', ''us-east-1b''] \<rparr>)
      | CreateVpc cidr ts \<Rightarrow> Return (named ''vpc-1'')
      | CreateInternetGateway ts \<Rightarrow> Return (named ''igw-1'')
      | CreateRouteTable v ts \<Rightarrow> Return (named ''rtb-1'')
      | CreateSubnet v cidr az ts \<Rightarrow> Return (named (''subnet-'' @ az))
      | CreateSecurityGroup n d v ts \<Rightarrow> Return (named ''sg-1'')
      | CreateTargetGroup n v ts \<Rightarrow> Return (named ''arn:tg'')
      | CreateLoadBalancer n ss ts \<Rightarrow>
          Return (empty_payload \<lparr> ResourceId := ''arn:lb'', DNSName := ''lb.example'' \<rparr>)
      | DescribeLoadBalancers arns \<Rightarrow> Return (empty_payload \<lparr> StateCode := ''active'' \<rparr>)
      | CreateListener lb tg \<Rightarrow> Return (named ''arn:listener'')
      | CreateLaunchTemplate n d ts \<Rightarrow> Return (named ''lt-1'')
      | _ \<Rightarrow> Return empty_payload)"


subsection \<open>Retrying\<close>

text \<open>
  The history after \<open>n\<close> invocations of \<open>fn\<close> that each failed and were each followed by the
  line and the sleep of \<^verbatim>\<open>retry\<close>, from the history \<open>h\<close>.
\<close>

fun failed_attempts :: "string \<Rightarrow> 'a prog \<Rightarrow> nat \<Rightarrow> nat \<Rightarrow> history \<Rightarrow> history" where
  "failed_attempts msg fn delay 0 h = h"
| "failed_attempts msg fn delay (Suc n) h =
     snd (fn (failed_attempts msg fn delay n h)) @ [Print (waiting_line msg), Sleep delay]"

text \<open>How often a call has been issued in a history.\<close>

definition issued :: "api_call \<Rightarrow> history \<Rightarrow> nat" where
  "issued c h = length (filter (\<lambda>e. case e of Call c' r \<Rightarrow> c' = c | _ \<Rightarrow> False) h)"

text \<open>
  A control plane on which deleting the security group \<^verbatim>\<open>sg-1\<close> fails three times with
  the code \<^verbatim>\<open>DependencyViolation\<close> and then succeeds.
\<close>

definition dependency_violation :: exn where
  "dependency_violation =
     ClientError ''DependencyViolation'' ''DeleteSecurityGroup'' []
       ''resource sg-1 has a dependent object''"

definition cp_sg_stuck :: control_plane where
  "cp_sg_stuck h c =
     (if c = DeleteSecurityGroup ''sg-1'' \<and> issued c h < 3 then Raise dependency_violation
      else Return empty_payload)"

text \<open>
  A control plane on which the first attempt to delete the target group \<^verbatim>\<open>arn:tg\<close> is
  refused with the code \<^verbatim>\<open>AccessDenied\<close>, in a message that mentions \<^verbatim>\<open>ResourceInUse\<close>.
\<close>

definition access_denied :: exn where
  "access_denied =
     ClientError ''AccessDenied'' ''DeleteTargetGroup'' []
       ''not authorized to delete a target group in state ResourceInUse''"

definition cp_denied_once :: control_plane where
  "cp_denied_once h c =
     (if c = DeleteTargetGroup ''arn:tg'' \<and> issued c h = 0 then Raise access_denied
      else Return empty_payload)"


text \<open>
  A control plane on which every attempt to delete a target group is refused with the code
  \<^verbatim>\<open>AccessDenied\<close>; the listings hold one resource of each kind the reaper asks for, all
  carrying the stack tag and the stack name.
\<close>

definition not_authorized :: exn where
  "not_authorized =
     ClientError ''AccessDenied'' ''DeleteTargetGroup'' []
       ''User is not authorized to perform this operation''"

definition stack_resource :: "string \<Rightarrow> resource" where
  "stack_resource i =
     \<lparr> ident = i, res_name = ''s3-file-manager-'' @ i,
       Tags = [(''Name'', ''s3-file-manager-'' @ i), (''stack'', ''s3-file-manager'')],
       Associations = [] \<rparr>"

definition cp_tg_denied :: control_plane where
  "cp_tg_denied h c =
     (case c of
        DescribeAutoScalingGroups \<Rightarrow> Return (listing [stack_resource ''asg''])
      | DescribeLoadBalancers arns \<Rightarrow> Return (listing [stack_resource ''nlb''])
      | DescribeTargetGroups \<Rightarrow> Return (listing [stack_resource ''tg''])
      | DescribeLaunchTemplates \<Rightarrow> Return (listing [stack_resource ''lt''])
      | DescribeSecurityGroups \<Rightarrow> Return (listing [stack_resource ''sg''])
      | DescribeVpcs \<Rightarrow> Return (listing [stack_resource ''vpc''])
      | DeleteTargetGroup arn \<Rightarrow> Raise not_authorized
      | _ \<Rightarrow> Return empty_payload)"


subsection \<open>Capacity bounds and tags of the builder\<close>

definition capacity_ordered :: "config \<Rightarrow> bool" where
  "capacity_ordered cfg \<longleftrightarrow>
     0 \<le> MIN_SIZE cfg \<and> MIN_SIZE cfg \<le> DESIRED cfg \<and> DESIRED cfg \<le> MAX_SIZE cfg"

text \<open>The configuration of the source with the minimum raised above the maximum.\<close>

definition disordered_config :: config where
  "disordered_config = source_config \<lparr> MIN_SIZE := 5 \<rparr>"

text \<open>An event that creates a scaling group carries the bounds of the configuration.\<close>

definition passes_capacity :: "config \<Rightarrow> event \<Rightarrow> bool" where
  "passes_capacity cfg e =
     (case e of
        Call (CreateAutoScalingGroup n mi ma de zones lt tgs ts) r \<Rightarrow>
          mi = MIN_SIZE cfg \<and> ma = MAX_SIZE cfg \<and> de = DESIRED cfg
      | _ \<Rightarrow> True)"

text \<open>The only check \<^verbatim>\<open>main\<close> makes before its first call.\<close>

definition rejects_image :: "config \<Rightarrow> bool" where
  "rejects_image cfg \<longleftrightarrow> \<not> prefix ''ami-'' (AMI_ID cfg) \<or> CHR ''x'' \<in> set (AMI_ID cfg)"

text \<open>
  The tags a creation call attaches to the resource it creates; \<open>None\<close> for a call that
  creates nothing. (The tag specifications inside the launch template data are for the
  instances and volumes launched from it, not for the template.)
\<close>

definition creation_tags :: "api_call \<Rightarrow> tag list option" where
  "creation_tags c =
     (case c of
        CreateVpc cidr ts \<Rightarrow> Some (concat (map snd ts))
      | CreateInternetGateway ts \<Rightarrow> Some (concat (map snd ts))
      | CreateRouteTable v ts \<Rightarrow> Some (concat (map snd ts))
      | CreateSubnet v cidr az ts \<Rightarrow> Some (concat (map snd ts))
      | CreateSecurityGroup n d v ts \<Rightarrow> Some (concat (map snd ts))
      | CreateTargetGroup n v ts \<Rightarrow> Some ts
      | CreateLoadBalancer n ss ts \<Rightarrow> Some ts
      | CreateListener lb tg \<Rightarrow> Some []
      | CreateLaunchTemplate n d ts \<Rightarrow> Some (concat (map snd ts))
      | CreateAutoScalingGroup n mi ma de zones lt tgs ts \<Rightarrow>
          Some (map (\<lambda>(k, v, p). (k, v)) ts)
      | _ \<Rightarrow> None)"

definition stack_tagged :: "config \<Rightarrow> event \<Rightarrow> bool" where
  "stack_tagged cfg e =
     (case e of
        Call c r \<Rightarrow>
          (case creation_tags c of None \<Rightarrow> True | Some ts \<Rightarrow> (''stack'', NAME cfg) \<in> set ts)
      | _ \<Rightarrow> True)"


text \<open>A monitor that counts the events.\<close>

definition count_step :: "nat \<Rightarrow> event \<Rightarrow> nat option" where
  "count_step n e = Some (Suc n)"


subsection \<open>Creation order\<close>

text \<open>The resource kinds of the topology.\<close>

datatype kind =
    Network | Gateway | RouteTable | Subnet | SecurityGroup | TargetGroup
  | LoadBalancer | Listener | LaunchTemplate | ScalingGroup

text \<open>
  The column \<^emph>\<open>depends on (creation)\<close> of the dependency table: for each kind, the kinds it
  refers to and how many of them must exist. The topology has two subnets, and the load
  balancer and the scaling group refer to both.
\<close>

fun depends_on :: "kind \<Rightarrow> (kind \<times> nat) list" where
  "depends_on Network = []"
| "depends_on Gateway = [(Network, 1)]"
| "depends_on RouteTable = [(Network, 1), (Gateway, 1)]"
| "depends_on Subnet = [(Network, 1), (RouteTable, 1)]"
| "depends_on SecurityGroup = [(Network, 1)]"
| "depends_on TargetGroup = [(Network, 1)]"
| "depends_on LoadBalancer = [(Subnet, 2)]"
| "depends_on Listener = [(LoadBalancer, 1), (TargetGroup, 1)]"
| "depends_on LaunchTemplate = [(SecurityGroup, 1)]"
| "depends_on ScalingGroup = [(LaunchTemplate, 1), (Subnet, 2), (TargetGroup, 1)]"

text \<open>The kind a call creates, if it creates a resource.\<close>

definition created_kind :: "api_call \<Rightarrow> kind option" where
  "created_kind c =
     (case c of
        CreateVpc cidr ts \<Rightarrow> Some Network
      | CreateInternetGateway ts \<Rightarrow> Some Gateway
      | CreateRouteTable v ts \<Rightarrow> Some RouteTable
      | CreateSubnet v cidr az ts \<Rightarrow> Some Subnet
      | CreateSecurityGroup n d v ts \<Rightarrow> Some SecurityGroup
      | CreateTargetGroup n v ts \<Rightarrow> Some TargetGroup
      | CreateLoadBalancer n ss ts \<Rightarrow> Some LoadBalancer
      | CreateListener lb tg \<Rightarrow> Some Listener
      | CreateLaunchTemplate n d ts \<Rightarrow> Some LaunchTemplate
      | CreateAutoScalingGroup n mi ma de zones lt tgs ts \<Rightarrow> Some ScalingGroup
      | _ \<Rightarrow> None)"

text \<open>
  \<open>seen\<close> are the kinds whose creation calls were issued before; a kind may be created when
  each kind it depends on has been created as often as it needs.
\<close>

definition dependencies_met :: "kind list \<Rightarrow> kind \<Rightarrow> bool" where
  "dependencies_met seen k = list_all (\<lambda>(d, n). n \<le> count_list seen d) (depends_on k)"

text \<open>
  The monitor of the creation order. Its state is the list of kinds created so far; it
  rejects a creation call that is issued before the calls it depends on.
\<close>

definition dep_step :: "kind list \<Rightarrow> event \<Rightarrow> kind list option" where
  "dep_step seen e =
     (case e of
        Call c r \<Rightarrow>
          (case created_kind c of
             None \<Rightarrow> Some seen
           | Some k \<Rightarrow> if dependencies_met seen k then Some (seen @ [k]) else None)
      | _ \<Rightarrow> Some seen)"

text \<open>The order in which \<^verbatim>\<open>main\<close> creates the resources.\<close>

definition build_order :: "kind list" where
  "build_order =
     [Network, Gateway, RouteTable, Subnet, Subnet, SecurityGroup, TargetGroup,
      LoadBalancer, Listener, LaunchTemplate, ScalingGroup]"

text \<open>An event that is not a creation call.\<close>

definition creates_nothing :: "event \<Rightarrow> bool" where
  "creates_nothing e = (case e of Call c r \<Rightarrow> created_kind c = None | _ \<Rightarrow> True)"

subsection \<open>Waiting for the load balancer\<close>

text \<open>
  The monitor of the wait. After the call that created the load balancer \<open>arn\<close> it counts the
  polls that did not report \<^verbatim>\<open>active\<close>. It rejects a poll of another balancer, a poll
  after \<^verbatim>\<open>active\<close> was reported, a poll beyond the thirtieth, a listener created before
  \<^verbatim>\<open>active\<close> was reported or thirty polls were made, and any other call between the
  creation of the balancer and that of the listener.
\<close>

datatype poll_state = NoBalancer | Polling string nat | Active string | PollFailed

definition poll_step :: "poll_state \<Rightarrow> event \<Rightarrow> poll_state option" where
  "poll_step s e =
     (case e of
        Call c r \<Rightarrow>
          (case c of
             CreateLoadBalancer n ss ts \<Rightarrow>
               (case s of
                  NoBalancer \<Rightarrow>
                    (case r of
                       Return p \<Rightarrow> Some (Polling (ResourceId p) 0)
                     | Raise x \<Rightarrow> Some PollFailed)
                | _ \<Rightarrow> None)
           | DescribeLoadBalancers arns \<Rightarrow>
               (case s of
                  Polling arn n \<Rightarrow>
                    if arns = Some [arn] \<and> n < 30
                    then (case r of
                            Return p \<Rightarrow>
                              if StateCode p = ''active'' then Some (Active arn)
                              else Some (Polling arn (Suc n))
                          | Raise x \<Rightarrow> Some PollFailed)
                    else None
                | _ \<Rightarrow> None)
           | CreateListener lb tg \<Rightarrow>
               (case s of
                  Active arn \<Rightarrow> if lb = arn then Some NoBalancer else None
                | Polling arn n \<Rightarrow> if lb = arn \<and> n = 30 then Some NoBalancer else None
                | _ \<Rightarrow> None)
           | _ \<Rightarrow> (case s of NoBalancer \<Rightarrow> Some NoBalancer | _ \<Rightarrow> None))
      | _ \<Rightarrow> Some s)"

text \<open>An event that is no call to create or describe a load balancer or create a listener.\<close>

definition off_balancer :: "event \<Rightarrow> bool" where
  "off_balancer e =
     (case e of
        Call c r \<Rightarrow>
          (case c of
             CreateLoadBalancer n ss ts \<Rightarrow> False
           | DescribeLoadBalancers arns \<Rightarrow> False
           | CreateListener lb tg \<Rightarrow> False
           | _ \<Rightarrow> True)
      | _ \<Rightarrow> True)"

text \<open>A control plane like \<open>cp_accepting\<close> whose load balancer never becomes active.\<close>

definition cp_never_active :: control_plane where
  "cp_never_active h c =
     (case c of
        DescribeLoadBalancers arns \<Rightarrow> Return (empty_payload \<lparr> StateCode := ''provisioning'' \<rparr>)
      | _ \<Rightarrow> cp_accepting h c)"


text \<open>
  How the wait may leave the monitor at the end of a run: outside a wait, or in a wait that a
  raising call broke off.
\<close>

definition wait_ends :: "exn option \<Rightarrow> poll_state \<Rightarrow> bool" where
  "wait_ends x s \<longleftrightarrow> s = NoBalancer \<or> (s = PollFailed \<and> x \<noteq> None)"


subsection \<open>A stack as the reaper finds it\<close>

text \<open>A resource that carries no tag and whose name does not mention the stack.\<close>

definition foreign_resource :: "string \<Rightarrow> resource" where
  "foreign_resource i = \<lparr> ident = i, res_name = i, Tags = [], Associations = [] \<rparr>"

text \<open>
  A control plane that lists, for every kind, a resource of the stack, and beside it
  resources that are not the stack's: another scaling group, load balancer, security group
  and network, and, inside the stack's network, a subnet without tags and the main route
  table. Every call succeeds.
\<close>

definition cp_stack :: control_plane where
  "cp_stack h c =
     (case c of
        DescribeAutoScalingGroups \<Rightarrow>
          Return (listing [stack_resource ''asg'', foreign_resource ''other-asg''])
      | DescribeLoadBalancers arns \<Rightarrow>
          Return (listing [stack_resource ''nlb'', foreign_resource ''other-lb''])
      | DescribeTargetGroups \<Rightarrow> Return (listing [stack_resource ''tg''])
      | DescribeLaunchTemplates \<Rightarrow> Return (listing [stack_resource ''lt''])
      | DescribeSecurityGroups \<Rightarrow>
          Return (listing [stack_resource ''sg'', foreign_resource ''sg-default''])
      | DescribeVpcs \<Rightarrow>
          Return (listing [stack_resource ''vpc'', foreign_resource ''vpc-default''])
      | DescribeInternetGateways v \<Rightarrow> Return (listing [stack_resource ''igw''])
      | DescribeSubnets v \<Rightarrow>
          Return (listing [stack_resource ''subnet-1'', foreign_resource ''subnet-x''])
      | DescribeRouteTables v \<Rightarrow>
          Return (listing [foreign_resource ''rtb-main'' \<lparr> Associations := [True] \<rparr>,
                           stack_resource ''rtb'' \<lparr> Associations := [False, False] \<rparr>])
      | _ \<Rightarrow> Return empty_payload)"

subsection \<open>Draining a scaling group\<close>

text \<open>
  The two events before a delete: the group's bounds were set to zero by a call that
  succeeded, and then twenty seconds were slept. \<open>prev\<close> lists the latest event first.
\<close>

definition zeroed_and_settled :: "string \<Rightarrow> event list \<Rightarrow> bool" where
  "zeroed_and_settled name prev =
     (case prev of
        [e1, e2] \<Rightarrow>
          e1 = Sleep 20
          \<and> (case e2 of
                Call c r \<Rightarrow>
                  c = UpdateAutoScalingGroup name 0 0 0
                  \<and> (case r of Return p \<Rightarrow> True | Raise x \<Rightarrow> False)
              | _ \<Rightarrow> False)
      | _ \<Rightarrow> False)"

text \<open>
  The monitor of the drain. Its state holds the last two events; it rejects a delete of a
  scaling group that is not forced or does not come right after the zeroing and the sleep.
\<close>

definition settle_step :: "event list \<Rightarrow> event \<Rightarrow> event list option" where
  "settle_step prev e =
     (if (case e of
            Call c r \<Rightarrow>
              (case c of
                 DeleteAutoScalingGroup name force \<Rightarrow> force \<and> zeroed_and_settled name prev
               | _ \<Rightarrow> True)
          | _ \<Rightarrow> True)
      then Some (take 2 (e # prev)) else None)"

definition deletes_no_group :: "event \<Rightarrow> bool" where
  "deletes_no_group e =
     (case e of
        Call c r \<Rightarrow> (case c of DeleteAutoScalingGroup name force \<Rightarrow> False | _ \<Rightarrow> True)
      | _ \<Rightarrow> True)"

text \<open>
  Force as a last resort, as a monitor: a forced delete of a group is accepted only after a
  delete of that group without force was tried. The state lists the groups so tried.
\<close>

definition last_resort_step :: "string list \<Rightarrow> event \<Rightarrow> string list option" where
  "last_resort_step tried e =
     (case e of
        Call c r \<Rightarrow>
          (case c of
             DeleteAutoScalingGroup name force \<Rightarrow>
               if force then (if name \<in> set tried then Some tried else None)
               else Some (name # tried)
           | _ \<Rightarrow> Some tried)
      | _ \<Rightarrow> Some tried)"

subsection \<open>Errors during teardown\<close>

text \<open>The calls that the reaper wraps in \<^verbatim>\<open>retry\<close>.\<close>

definition retried :: "api_call \<Rightarrow> bool" where
  "retried c =
     (case c of
        DeleteTargetGroup arn \<Rightarrow> True
      | DeleteSecurityGroup g \<Rightarrow> True
      | DetachInternetGateway g v \<Rightarrow> True
      | DeleteInternetGateway g \<Rightarrow> True
      | DeleteSubnet sn \<Rightarrow> True
      | DeleteRouteTable rt \<Rightarrow> True
      | DeleteVpc v \<Rightarrow> True
      | _ \<Rightarrow> False)"

text \<open>An error that \<^verbatim>\<open>retry\<close> absorbs: raised by a wrapped call, caught, and transient.\<close>

definition absorbed :: "api_call \<Rightarrow> exn \<Rightarrow> bool" where
  "absorbed c e \<longleftrightarrow> retried c \<and> isinstance_ClientError e \<and> is_transient e"

text \<open>
  The monitor of a run that stops at its first error. Its state is the error that stopped
  the run, if any; it rejects every event after a call that raised an error which is not
  absorbed.
\<close>

definition abort_step :: "exn option \<Rightarrow> event \<Rightarrow> exn option option" where
  "abort_step stopped e =
     (case stopped of
        Some x \<Rightarrow> None
      | None \<Rightarrow>
          (case e of
             Call c r \<Rightarrow>
               (case r of
                  Return p \<Rightarrow> Some None
                | Raise x \<Rightarrow> if absorbed c x then Some None else Some (Some x))
           | _ \<Rightarrow> Some None))"

text \<open>\<open>aborting m\<close>: \<open>m\<close> stops at the first error that is not absorbed, and raises it.\<close>

definition aborting :: "'a prog \<Rightarrow> bool" where
  "aborting m \<longleftrightarrow>
     obeys abort_step (\<lambda>s. s = None) m (\<lambda>a s. s = None) (\<lambda>x s. s = x)"


subsection \<open>Teardown order\<close>

text \<open>
  The stage of the teardown an event belongs to: the deletes by kind, in the order of the
  blocks of the file, and the wait of sixty seconds for the release of the interfaces.
  Detaching a gateway belongs to the stage of deleting it.
\<close>

definition stage_of :: "event \<Rightarrow> nat option" where
  "stage_of e =
     (case e of
        Call c r \<Rightarrow>
          (case c of
             DeleteAutoScalingGroup n f \<Rightarrow> Some 0
           | DeleteLoadBalancer arn \<Rightarrow> Some 1
           | DeleteTargetGroup arn \<Rightarrow> Some 3
           | DeleteLaunchTemplate lt \<Rightarrow> Some 4
           | DeleteSecurityGroup g \<Rightarrow> Some 5
           | DetachInternetGateway g v \<Rightarrow> Some 6
           | DeleteInternetGateway g \<Rightarrow> Some 6
           | DeleteSubnet sn \<Rightarrow> Some 7
           | DeleteRouteTable rt \<Rightarrow> Some 8
           | DeleteVpc v \<Rightarrow> Some 9
           | _ \<Rightarrow> None)
      | Sleep n \<Rightarrow> if n = 60 then Some 2 else None
      | _ \<Rightarrow> None)"

text \<open>The work on a network begins with the listing of its gateways.\<close>

definition opens_network :: "event \<Rightarrow> string option" where
  "opens_network e =
     (case e of
        Call c r \<Rightarrow> (case c of DescribeInternetGateways v \<Rightarrow> Some v | _ \<Rightarrow> None)
      | _ \<Rightarrow> None)"

text \<open>An event that names a network names the network \<open>v\<close>.\<close>

definition names_network :: "string \<Rightarrow> event \<Rightarrow> bool" where
  "names_network v e =
     (case e of
        Call c r \<Rightarrow>
          (case c of
             DetachInternetGateway g v' \<Rightarrow> v' = v
           | DeleteVpc v' \<Rightarrow> v' = v
           | _ \<Rightarrow> True)
      | _ \<Rightarrow> True)"

text \<open>
  The monitor of the teardown order. Its state is the stage of the latest staged event and
  the network being worked on. It rejects an event of an earlier stage than the latest one;
  a delete of a target group, launch template, security group or anything of a network
  before the wait; a delete of anything of a network outside the work on that network. The
  listing of a network's gateways starts the stages of the network afresh.
\<close>

definition teardown_step :: "nat \<times> string \<Rightarrow> event \<Rightarrow> (nat \<times> string) option" where
  "teardown_step s e =
     (case opens_network e of
        Some v \<Rightarrow> if 2 \<le> fst s then Some (6, v) else None
      | None \<Rightarrow>
          (case stage_of e of
             None \<Rightarrow> Some s
           | Some j \<Rightarrow>
               if fst s \<le> j \<and> (j < 3 \<or> 2 \<le> fst s)
                  \<and> (j < 6 \<or> (6 \<le> fst s \<and> names_network (snd s) e))
               then Some (j, snd s) else None))"

text \<open>An event of stage \<open>j\<close>, or of no stage, within the work on the network \<open>v\<close>.\<close>

definition in_stage :: "nat \<Rightarrow> string \<Rightarrow> event \<Rightarrow> bool" where
  "in_stage j v e \<longleftrightarrow>
     opens_network e = None
     \<and> (stage_of e = None \<or> (stage_of e = Some j \<and> names_network v e))"

definition within :: "nat \<Rightarrow> nat \<Rightarrow> string \<Rightarrow> nat \<times> string \<Rightarrow> bool" where
  "within lo hi v s \<longleftrightarrow> lo \<le> fst s \<and> fst s \<le> hi \<and> snd s = v"

text \<open>The kind a call deletes.\<close>

definition deleted_kind :: "api_call \<Rightarrow> kind option" where
  "deleted_kind c =
     (case c of
        DeleteAutoScalingGroup n f \<Rightarrow> Some ScalingGroup
      | DeleteLoadBalancer arn \<Rightarrow> Some LoadBalancer
      | DeleteTargetGroup arn \<Rightarrow> Some TargetGroup
      | DeleteLaunchTemplate lt \<Rightarrow> Some LaunchTemplate
      | DeleteSecurityGroup g \<Rightarrow> Some SecurityGroup
      | DeleteInternetGateway g \<Rightarrow> Some Gateway
      | DeleteSubnet sn \<Rightarrow> Some Subnet
      | DeleteRouteTable rt \<Rightarrow> Some RouteTable
      | DeleteVpc v \<Rightarrow> Some Network
      | _ \<Rightarrow> None)"

definition deleted_kinds :: "history \<Rightarrow> kind list" where
  "deleted_kinds h =
     List.map_filter (\<lambda>e. case e of Call c r \<Rightarrow> deleted_kind c | _ \<Rightarrow> None) h"

text \<open>
  Reverse dependency order, as a monitor: a resource is deleted before the resources it
  depended on at creation. The state lists the kinds deleted so far; a delete is rejected
  when a kind that the deleted kind depends on is already gone.
\<close>

definition reverse_dep_step :: "kind list \<Rightarrow> event \<Rightarrow> kind list option" where
  "reverse_dep_step gone e =
     (case e of
        Call c r \<Rightarrow>
          (case deleted_kind c of
             None \<Rightarrow> Some gone
           | Some k \<Rightarrow>
               if list_ex (\<lambda>d. d \<in> set gone) (map fst (depends_on k)) then None
               else Some (gone @ [k]))
      | _ \<Rightarrow> Some gone)"


text \<open>
  The same with the one exception the reaper makes: a route table may be deleted after the
  gateway it depended on. The kinds that live inside a network are new resources in each
  network, so the listing of a network's gateways clears them from the state.
\<close>

definition network_scoped :: "kind \<Rightarrow> bool" where
  "network_scoped k \<longleftrightarrow> k = Network \<or> k = Gateway \<or> k = Subnet \<or> k = RouteTable"

definition reverse_dep_except_step :: "kind list \<Rightarrow> event \<Rightarrow> kind list option" where
  "reverse_dep_except_step gone e =
     (case opens_network e of
        Some v \<Rightarrow> Some (filter (\<lambda>k. \<not> network_scoped k) gone)
      | None \<Rightarrow>
          (case e of
             Call c r \<Rightarrow>
               (case deleted_kind c of
                  None \<Rightarrow> Some gone
                | Some k \<Rightarrow>
                    if list_ex (\<lambda>d. d \<in> set gone \<and> \<not> (k = RouteTable \<and> d = Gateway))
                         (map fst (depends_on k))
                    then None
                    else Some (gone @ [k]))
           | _ \<Rightarrow> Some gone))"

text \<open>
  The stage in which a kind is deleted. No call deletes a listener (it goes with its load
  balancer); its stage is never looked at.
\<close>

fun kind_stage :: "kind \<Rightarrow> nat" where
  "kind_stage ScalingGroup = 0"
| "kind_stage Listener = 0"
| "kind_stage LoadBalancer = 1"
| "kind_stage TargetGroup = 3"
| "kind_stage LaunchTemplate = 4"
| "kind_stage SecurityGroup = 5"
| "kind_stage Gateway = 6"
| "kind_stage Subnet = 7"
| "kind_stage RouteTable = 8"
| "kind_stage Network = 9"


subsection \<open>Selection of what is deleted\<close>

text \<open>
  What a describe call of the reaper lists: the kind, and the network whose resources are
  asked for when the call carries a filter on a network.
\<close>

definition listed_kind :: "api_call \<Rightarrow> (kind \<times> string option) option" where
  "listed_kind c =
     (case c of
        DescribeAutoScalingGroups \<Rightarrow> Some (ScalingGroup, None)
      | DescribeLoadBalancers arns \<Rightarrow> Some (LoadBalancer, None)
      | DescribeTargetGroups \<Rightarrow> Some (TargetGroup, None)
      | DescribeLaunchTemplates \<Rightarrow> Some (LaunchTemplate, None)
      | DescribeSecurityGroups \<Rightarrow> Some (SecurityGroup, None)
      | DescribeVpcs \<Rightarrow> Some (Network, None)
      | DescribeInternetGateways v \<Rightarrow> Some (Gateway, Some v)
      | DescribeSubnets v \<Rightarrow> Some (Subnet, Some v)
      | DescribeRouteTables v \<Rightarrow> Some (RouteTable, Some v)
      | _ \<Rightarrow> None)"

text \<open>The resources a call deletes, detaches or resizes.\<close>

definition touched :: "api_call \<Rightarrow> (kind \<times> string) list option" where
  "touched c =
     (case c of
        UpdateAutoScalingGroup n mi ma de \<Rightarrow> Some [(ScalingGroup, n)]
      | DeleteAutoScalingGroup n f \<Rightarrow> Some [(ScalingGroup, n)]
      | DeleteLoadBalancer arn \<Rightarrow> Some [(LoadBalancer, arn)]
      | DeleteTargetGroup arn \<Rightarrow> Some [(TargetGroup, arn)]
      | DeleteLaunchTemplate lt \<Rightarrow> Some [(LaunchTemplate, lt)]
      | DeleteSecurityGroup g \<Rightarrow> Some [(SecurityGroup, g)]
      | DetachInternetGateway g v \<Rightarrow> Some [(Gateway, g), (Network, v)]
      | DeleteInternetGateway g \<Rightarrow> Some [(Gateway, g)]
      | DeleteSubnet sn \<Rightarrow> Some [(Subnet, sn)]
      | DeleteRouteTable rt \<Rightarrow> Some [(RouteTable, rt)]
      | DeleteVpc v \<Rightarrow> Some [(Network, v)]
      | _ \<Rightarrow> None)"

text \<open>The resources of a listing that a rule of selection picks.\<close>

definition picked :: "kind \<Rightarrow> (resource \<Rightarrow> bool) \<Rightarrow> response \<Rightarrow> (kind \<times> string) list" where
  "picked k sel r =
     (case r of
        Return p \<Rightarrow> map (\<lambda>x. (k, ident x)) (filter sel (Items p))
      | Raise x \<Rightarrow> [])"

text \<open>
  The monitor of the selection, for a rule that says which listed resources of a kind are
  candidates. Its state lists the candidates found so far. A listing adds the resources the
  rule picks; a listing filtered on a network counts only if that network is a candidate.
  The monitor rejects a call that touches a resource which is no candidate.
\<close>

definition select_step ::
  "(kind \<Rightarrow> resource \<Rightarrow> bool) \<Rightarrow> (kind \<times> string) list \<Rightarrow> event
     \<Rightarrow> (kind \<times> string) list option" where
  "select_step rule cands e =
     (case e of
        Call c r \<Rightarrow>
          (case touched c of
             Some rs \<Rightarrow> if list_all (\<lambda>x. x \<in> set cands) rs then Some cands else None
           | None \<Rightarrow>
               (case listed_kind c of
                  None \<Rightarrow> Some cands
                | Some (k, scope) \<Rightarrow>
                    (case scope of
                       None \<Rightarrow> Some (cands @ picked k (rule k) r)
                     | Some v \<Rightarrow>
                         if (Network, v) \<in> set cands
                         then Some (cands @ picked k (rule k) r)
                         else Some cands)))
      | _ \<Rightarrow> Some cands)"

text \<open>
  The rule as the claim has it: the stack tag, or, for load balancers, launch templates and
  target groups, the stack identity inside the name.
\<close>

definition claimed_rule :: "kind \<Rightarrow> resource \<Rightarrow> bool" where
  "claimed_rule k x \<longleftrightarrow>
     has_stack_tag x
     \<or> ((k = LoadBalancer \<or> k = LaunchTemplate \<or> k = TargetGroup)
          \<and> sublist STACK (res_name x))"

text \<open>
  The rule as the code has it: the tag for scaling groups, security groups and networks; the
  name for load balancers, launch templates and target groups; for the gateways and subnets
  listed for a network, nothing more; for its route tables, no main association.
\<close>

fun code_rule :: "kind \<Rightarrow> resource \<Rightarrow> bool" where
  "code_rule ScalingGroup x = has_stack_tag x"
| "code_rule SecurityGroup x = has_stack_tag x"
| "code_rule Network x = has_stack_tag x"
| "code_rule LoadBalancer x = sublist STACK (res_name x)"
| "code_rule LaunchTemplate x = sublist STACK (res_name x)"
| "code_rule TargetGroup x = sublist STACK (res_name x)"
| "code_rule Gateway x = True"
| "code_rule Subnet x = True"
| "code_rule RouteTable x = (\<not> list_ex (\<lambda>a. a) (Associations x))"
| "code_rule Listener x = False"

text \<open>An event that lists nothing and touches resources of \<open>S\<close> only.\<close>

definition touches_within :: "(kind \<times> string) set \<Rightarrow> event \<Rightarrow> bool" where
  "touches_within S e =
     (case e of
        Call c r \<Rightarrow> (case touched c of Some rs \<Rightarrow> set rs \<subseteq> S | None \<Rightarrow> False)
      | _ \<Rightarrow> True)"

text \<open>The candidates of kind \<open>k\<close> among the listed resources \<open>xs\<close>, by the rule of the code.\<close>

definition chosen :: "kind \<Rightarrow> resource list \<Rightarrow> (kind \<times> string) set" where
  "chosen k xs = {(k, ident x) | x. x \<in> set xs \<and> code_rule k x}"

section \<open>Reasoning about programs\<close>

lemma run_append:
  "run step s (xs @ ys) = (case run step s xs of None \<Rightarrow> None | Some s' \<Rightarrow> run step s' ys)"
  by (induction xs arbitrary: s) (auto split: option.splits)

lemma ended_simps [simp]:
  "ended Q X (Done a) s = Q a s"
  "ended Q X (Raised e) s = X (Some e) s"
  "ended Q X Spinning s = X None s"
  by (simp_all add: ended_def)

lemma obeysI:
  assumes "\<And>h s. P s \<Longrightarrow>
             \<exists>ext s'. snd (m h) = h @ ext \<and> run step s ext = Some s' \<and> ended Q X (fst (m h)) s'"
  shows "obeys step P m Q X"
  using assms unfolding obeys_def by blast

lemma obeysE:
  assumes "obeys step P m Q X" and "P s"
  obtains ext s' where "m h = (fst (m h), h @ ext)" and "run step s ext = Some s'"
    and "ended Q X (fst (m h)) s'"
proof -
  from assms obtain ext s' where "snd (m h) = h @ ext" "run step s ext = Some s'"
    "ended Q X (fst (m h)) s'"
    unfolding obeys_def by blast
  then show thesis
    using that[of ext s'] by (metis prod.collapse)
qed

lemma obeys_return: "(\<And>s. P s \<Longrightarrow> Q a s) \<Longrightarrow> obeys step P (return_p a) Q X"
  by (rule obeysI) (simp add: return_p_def)

lemma obeys_raise: "(\<And>s. P s \<Longrightarrow> X (Some e) s) \<Longrightarrow> obeys step P (raise e) Q X"
  by (rule obeysI) (simp add: raise_def)

lemma obeys_emit:
  assumes "\<And>s. P s \<Longrightarrow> \<exists>s'. step s ev = Some s' \<and> Q () s'"
  shows "obeys step P (emit ev) Q X"
proof (rule obeysI)
  fix h s assume "P s"
  with assms obtain s' where "step s ev = Some s'" "Q () s'" by blast
  then show "\<exists>ext s'. snd (emit ev h) = h @ ext \<and> run step s ext = Some s'
               \<and> ended Q X (fst (emit ev h)) s'"
    by (intro exI[of _ "[ev]"] exI[of _ s']) (simp add: emit_def)
qed

lemma obeys_call:
  assumes "\<And>s p. P s \<Longrightarrow> \<exists>s'. step s (Call c (Return p)) = Some s' \<and> Q p s'"
    and "\<And>s e. P s \<Longrightarrow> \<exists>s'. step s (Call c (Raise e)) = Some s' \<and> X (Some e) s'"
  shows "obeys step P (call cp c) Q X"
proof (rule obeysI)
  fix h s assume P: "P s"
  show "\<exists>ext s'. snd (call cp c h) = h @ ext \<and> run step s ext = Some s'
          \<and> ended Q X (fst (call cp c h)) s'"
  proof (cases "cp h c")
    case (Return p)
    from assms(1)[OF P, of p] obtain s' where "step s (Call c (Return p)) = Some s'" "Q p s'"
      by blast
    with Return show ?thesis
      by (intro exI[of _ "[Call c (Return p)]"] exI[of _ s']) (simp add: call_def)
  next
    case (Raise e)
    from assms(2)[OF P, of e] obtain s' where "step s (Call c (Raise e)) = Some s'"
      "X (Some e) s'"
      by blast
    with Raise show ?thesis
      by (intro exI[of _ "[Call c (Raise e)]"] exI[of _ s']) (simp add: call_def)
  qed
qed

lemma obeys_bind:
  assumes m: "obeys step P m Q X" and f: "\<And>a. obeys step (Q a) (f a) R X"
  shows "obeys step P (bind_p m f) R X"
proof (rule obeysI)
  fix h s assume P: "P s"
  from m P obtain ext s' where 1: "m h = (fst (m h), h @ ext)" "run step s ext = Some s'"
     "ended Q X (fst (m h)) s'"
    by (rule obeysE)
  show "\<exists>ext s'. snd (bind_p m f h) = h @ ext \<and> run step s ext = Some s'
          \<and> ended R X (fst (bind_p m f h)) s'"
  proof (cases "fst (m h)")
    case (Done a)
    with 1 have "Q a s'" by simp
    with f[of a] obtain ext2 s2 where 2: "f a (h @ ext) = (fst (f a (h @ ext)), (h @ ext) @ ext2)"
      "run step s' ext2 = Some s2" "ended R X (fst (f a (h @ ext))) s2"
      by (rule obeysE)
    have eq: "bind_p m f h = f a (h @ ext)"
      using Done 1(1) by (cases "m h") (simp add: bind_p_def)
    show ?thesis
      unfolding eq
      by (intro exI[of _ "ext @ ext2"] exI[of _ s2])
         (use 2 1(2) in \<open>simp add: run_append, metis append.assoc snd_conv\<close>)
  next
    case (Raised e)
    then have eq: "bind_p m f h = (Raised e, h @ ext)"
      using 1(1) by (cases "m h") (simp add: bind_p_def)
    show ?thesis using 1 Raised by (simp add: eq)
  next
    case Spinning
    then have eq: "bind_p m f h = (Spinning, h @ ext)"
      using 1(1) by (cases "m h") (simp add: bind_p_def)
    show ?thesis using 1 Spinning by (simp add: eq)
  qed
qed

lemma obeys_then:
  "obeys step P m (\<lambda>a. Q) X \<Longrightarrow> obeys step Q n R X \<Longrightarrow> obeys step P (then_p m n) R X"
  unfolding then_p_def by (rule obeys_bind)

lemma obeys_weaken:
  assumes "obeys step P' m Q' X'"
    and "\<And>s. P s \<Longrightarrow> P' s" and "\<And>a s. Q' a s \<Longrightarrow> Q a s" and "\<And>x s. X' x s \<Longrightarrow> X x s"
  shows "obeys step P m Q X"
proof (rule obeysI)
  fix h s assume "P s"
  then have "P' s" by (rule assms(2))
  with assms(1) obtain ext s' where 1: "m h = (fst (m h), h @ ext)" "run step s ext = Some s'"
     "ended Q' X' (fst (m h)) s'"
    by (rule obeysE)
  from 1(3) have "ended Q X (fst (m h)) s'"
    using assms(3,4) by (cases "fst (m h)") simp_all
  with 1 show "\<exists>ext s'. snd (m h) = h @ ext \<and> run step s ext = Some s' \<and> ended Q X (fst (m h)) s'"
    by (metis snd_conv)
qed

lemma obeys_for_each:
  assumes "\<And>x. x \<in> set xs \<Longrightarrow> obeys step I (body x) (\<lambda>a. I) X"
  shows "obeys step I (for_each xs body) (\<lambda>a. I) X"
  using assms
proof (induction xs)
  case Nil
  show ?case by (simp add: obeys_return)
next
  case (Cons x xs)
  show ?case
    unfolding for_each.simps
    by (rule obeys_then[where Q = I]) (simp_all add: Cons)
qed

lemma obeys_when:
  assumes "c \<Longrightarrow> obeys step P body Q X" and "\<And>s. \<not> c \<Longrightarrow> P s \<Longrightarrow> Q () s"
  shows "obeys step P (when_p c body) Q X"
  using assms by (cases c) (auto simp: when_p_def intro: obeys_return)

lemma obeys_retry:
  assumes fn: "obeys step I fn (\<lambda>a. Q ()) (after_failure step msg delay I X)"
    and spin: "\<And>s. I s \<Longrightarrow> X None s"
  shows "obeys step I (retry fuel msg fn delay) Q X"
proof (induction fuel)
  case 0
  show ?case
    by (rule obeysI) (simp add: spin)
next
  case (Suc fuel)
  show ?case
  proof (rule obeysI)
    fix h s assume I: "I s"
    let ?ev = "[Print (waiting_line msg), Sleep delay]"
    from fn I obtain ext s' where 1: "fn h = (fst (fn h), h @ ext)" "run step s ext = Some s'"
      "ended (\<lambda>a. Q ()) (after_failure step msg delay I X) (fst (fn h)) s'"
      by (rule obeysE)
    show "\<exists>ext s'. snd (retry (Suc fuel) msg fn delay h) = h @ ext \<and> run step s ext = Some s'
            \<and> ended Q X (fst (retry (Suc fuel) msg fn delay h)) s'"
    proof (cases "fst (fn h)")
      case (Done a)
      then have "retry (Suc fuel) msg fn delay h = (Done (), h @ ext)"
        using 1(1) by (cases "fn h") simp
      with 1 Done show ?thesis by simp
    next
      case Spinning
      then have "retry (Suc fuel) msg fn delay h = (Spinning, h @ ext)"
        using 1(1) by (cases "fn h") simp
      with 1 Spinning show ?thesis by (simp add: after_failure_def)
    next
      case (Raised e)
      show ?thesis
      proof (cases "isinstance_ClientError e \<and> is_transient e")
        case False
        then have "retry (Suc fuel) msg fn delay h = (Raised e, h @ ext)"
          using 1(1) Raised by (cases "fn h") auto
        with 1 Raised False show ?thesis by (simp add: after_failure_def)
      next
        case True
        then have eq: "retry (Suc fuel) msg fn delay h
                         = retry fuel msg fn delay ((h @ ext) @ ?ev)"
          using 1(1) Raised by (cases "fn h") auto
        from 1(3) Raised True obtain s1 s2 where
          s: "step s' (Print (waiting_line msg)) = Some s1"
             "step s1 (Sleep delay) = Some s2" "I s2"
          by (auto simp: after_failure_def)
        from Suc s(3) obtain ext2 s3 where 2:
          "retry fuel msg fn delay ((h @ ext) @ ?ev)
             = (fst (retry fuel msg fn delay ((h @ ext) @ ?ev)), ((h @ ext) @ ?ev) @ ext2)"
          "run step s2 ext2 = Some s3"
          "ended Q X (fst (retry fuel msg fn delay ((h @ ext) @ ?ev))) s3"
          by (rule obeysE)
        show ?thesis
          unfolding eq
          by (intro exI[of _ "ext @ ?ev @ ext2"] exI[of _ s3])
             (use 1(2) 2 s in \<open>simp add: run_append, metis append.assoc append_Cons append_Nil snd_conv\<close>)
      qed
    qed
  qed
qed

lemma obeys_call_unit:
  assumes "\<And>s p. P s \<Longrightarrow> \<exists>s'. step s (Call c (Return p)) = Some s' \<and> Q () s'"
    and "\<And>s e. P s \<Longrightarrow> \<exists>s'. step s (Call c (Raise e)) = Some s' \<and> X (Some e) s'"
  shows "obeys step P (call_unit cp c) Q X"
  unfolding call_unit_def then_p_def
  by (rule obeys_bind[where Q = "\<lambda>a. Q ()"], rule obeys_call) (auto intro: assms obeys_return)

lemma obeys_run:
  assumes "obeys step P m Q X" and "P s"
  shows "\<exists>s'. run step s (snd (m [])) = Some s' \<and> ended Q X (fst (m [])) s'"
proof -
  from assms obtain ext s' where "m [] = (fst (m []), [] @ ext)" "run step s ext = Some s'"
    "ended Q X (fst (m [])) s'"
    by (rule obeysE)
  then show ?thesis by (metis append_Nil snd_conv)
qed

subsection \<open>Programs that only emit events of one sort\<close>

lemma run_guard: "run (guard A) u ext = Some u' \<longleftrightarrow> list_all A ext"
  by (induction ext arbitrary: u) (auto simp: guard_def)

lemma only_iff: "only A m \<longleftrightarrow> (\<forall>h. \<exists>ext. snd (m h) = h @ ext \<and> list_all A ext)"
proof
  assume a: "only A m"
  show "\<forall>h. \<exists>ext. snd (m h) = h @ ext \<and> list_all A ext"
  proof
    fix h
    from a obtain ext u where "snd (m h) = h @ ext" "run (guard A) () ext = Some u"
      unfolding only_def obeys_def by blast
    then show "\<exists>ext. snd (m h) = h @ ext \<and> list_all A ext"
      using run_guard[of A "()" ext u] by blast
  qed
next
  assume a: "\<forall>h. \<exists>ext. snd (m h) = h @ ext \<and> list_all A ext"
  show "only A m"
    unfolding only_def
  proof (rule obeysI)
    fix h and s :: unit
    from a obtain ext where "snd (m h) = h @ ext" "list_all A ext" by blast
    then show "\<exists>ext s'. snd (m h) = h @ ext \<and> run (guard A) s ext = Some s'
        \<and> ended (\<lambda>a u. True) (\<lambda>x u. True) (fst (m h)) s'"
      using run_guard[of A s ext "()"] by (cases "fst (m h)") auto
  qed
qed

lemma run_invariant:
  assumes "list_all A ext" and "I s"
    and "\<And>s e. A e \<Longrightarrow> I s \<Longrightarrow> \<exists>s'. step s e = Some s' \<and> I s'"
  shows "\<exists>s'. run step s ext = Some s' \<and> I s'"
  using assms(1,2)
proof (induction ext arbitrary: s)
  case Nil
  then show ?case by simp
next
  case (Cons e ext)
  from Cons.prems assms(3)[of e s] obtain s1 where "step s e = Some s1" "I s1" by auto
  with Cons.IH[of s1] Cons.prems show ?case by simp
qed

lemma only_obeys:
  assumes "only A m"
    and "\<And>s e. A e \<Longrightarrow> I s \<Longrightarrow> \<exists>s'. step s e = Some s' \<and> I s'"
  shows "obeys step I m (\<lambda>a. I) (\<lambda>x. I)"
proof (rule obeysI)
  fix h s assume "I s"
  from assms(1) obtain ext where ext: "snd (m h) = h @ ext" "list_all A ext"
    unfolding only_iff by blast
  have "\<exists>s'. run step s ext = Some s' \<and> I s'"
    using ext(2) \<open>I s\<close> assms(2) by (rule run_invariant[where A = A])
  then obtain s' where "run step s ext = Some s'" "I s'"
    by blast
  with ext(1) show "\<exists>ext s'. snd (m h) = h @ ext \<and> run step s ext = Some s'
          \<and> ended (\<lambda>a. I) (\<lambda>x. I) (fst (m h)) s'"
    by (cases "fst (m h)") auto
qed

lemma only_return: "only A (return_p a)"
  unfolding only_def by (rule obeys_return) simp

lemma only_raise: "only A (raise e)"
  unfolding only_def by (rule obeys_raise) simp

lemma only_emit: "A ev \<Longrightarrow> only A (emit ev)"
  unfolding only_def by (rule obeys_emit) (simp add: guard_def)

lemma only_print: "A (Print s) \<Longrightarrow> only A (print s)"
  unfolding print_def by (rule only_emit)

lemma only_sleep: "A (Sleep n) \<Longrightarrow> only A (sleep n)"
  unfolding sleep_def by (rule only_emit)

lemma only_call: "(\<And>r. A (Call c r)) \<Longrightarrow> only A (call cp c)"
  unfolding only_def by (rule obeys_call) (simp_all add: guard_def)

lemma only_bind: "only A m \<Longrightarrow> (\<And>a. only A (f a)) \<Longrightarrow> only A (bind_p m f)"
  unfolding only_def by (rule obeys_bind)

lemma only_then: "only A m \<Longrightarrow> only A n \<Longrightarrow> only A (then_p m n)"
  unfolding then_p_def by (rule only_bind)

lemma only_call_unit: "(\<And>r. A (Call c r)) \<Longrightarrow> only A (call_unit cp c)"
  unfolding call_unit_def by (intro only_then only_call only_return)

lemma only_for_each: "(\<And>x. x \<in> set xs \<Longrightarrow> only A (body x)) \<Longrightarrow> only A (for_each xs body)"
  unfolding only_def by (rule obeys_for_each)

lemma only_when: "(c \<Longrightarrow> only A body) \<Longrightarrow> only A (when_p c body)"
  unfolding only_def by (rule obeys_when) simp_all

lemma only_retry:
  assumes "only A fn" and "A (Print (waiting_line msg))" and "A (Sleep delay)"
  shows "only A (retry fuel msg fn delay)"
  unfolding only_def
proof (rule obeys_retry)
  have "obeys (guard A) (\<lambda>u. True) fn (\<lambda>a u. True) (\<lambda>x u. True)"
    using assms(1) by (simp add: only_def)
  then show "obeys (guard A) (\<lambda>u. True) fn (\<lambda>a u. True)
               (after_failure (guard A) msg delay (\<lambda>u. True) (\<lambda>x u. True))"
    by (rule obeys_weaken[where P' = "\<lambda>u. True" and Q' = "\<lambda>a u. True" and X' = "\<lambda>x u. True"])
       (use assms(2,3) in \<open>auto simp: guard_def after_failure_def split: option.splits\<close>)
qed simp

lemma only_wait: "A (Print msg) \<Longrightarrow> A (Sleep n) \<Longrightarrow> only A (wait msg n)"
  unfolding wait_def by (intro only_then only_print only_sleep)

lemmas only_intros =
  only_return only_raise only_emit only_print only_sleep only_call only_call_unit only_bind
  only_then only_for_each only_when only_retry only_wait

section \<open>The builder's alphabet\<close>

lemmas builder_defs =
  pick_two_azs_def create_vpc_def create_igw_def create_route_table_def
  create_public_subnet_def create_ec2_sg_def create_target_group_def create_nlb_def
  create_nlb_listener_tcp_443_def create_launch_template_def create_asg_def index_def

lemma only_wait_until_active:
  assumes "\<And>r. A (Call (DescribeLoadBalancers (Some [arn])) r)"
    and "A (Print ''Waiting for NLB to become active...'')" and "A (Sleep 2)"
  shows "only A (wait_until_active cp arn n)"
  by (induction n) (auto intro!: only_intros assms)

section \<open>Capacity bounds\<close>

lemma main_passes_capacity: "only (passes_capacity cfg) (main cfg aws_region cp)"
  unfolding main_def builder_defs Let_def
  by (auto intro!: only_intros only_wait_until_active simp: passes_capacity_def)

lemma run_count: "run count_step n h = Some (n + length h)"
  by (induction h arbitrary: n) (simp_all add: count_step_def)

lemma main_first_call:
  assumes "\<not> rejects_image cfg"
  shows "snd (main cfg aws_region cp []) \<noteq> []"
proof -
  have "obeys count_step (\<lambda>n. n = 0) (main cfg aws_region cp)
          (\<lambda>a n. 1 \<le> n) (\<lambda>x n. 1 \<le> n)"
    unfolding main_def if_not_P[OF assms[unfolded rejects_image_def]] pick_two_azs_def
    apply (rule obeys_bind[where Q = "\<lambda>a n. 1 \<le> n"])
     apply (rule obeys_bind[where Q = "\<lambda>a n. 1 \<le> n"])
      apply (rule obeys_call; simp add: count_step_def)
     apply (auto intro!: obeys_raise obeys_return simp: Let_def)[1]
    apply (rule only_obeys[where A = "\<lambda>e. True" and I = "\<lambda>n. 1 \<le> n" and step = count_step])
     apply (unfold builder_defs Let_def)
     apply (auto intro!: only_intros only_wait_until_active simp: count_step_def)
    done
  from obeys_run[OF this, of 0] show ?thesis
    by (cases "fst (main cfg aws_region cp [])") (auto simp: run_count)
qed

text \<open>
  C4, as amended. The bounds of the source's configuration are ordered,
  \<open>0 \<le> min \<le> desired \<le> max\<close>. The builder never compares them: whatever the
  configuration, each call that creates a scaling group carries the configured minimum,
  maximum and desired capacity unchanged, and the builder stops before its first call exactly
  when the image identifier is malformed.
\<close>

theorem capacity_passed_unchecked:
  "capacity_ordered source_config
   \<and> list_all (passes_capacity cfg) (snd (main cfg aws_region cp []))
   \<and> (snd (main cfg aws_region cp []) = [] \<longleftrightarrow> rejects_image cfg)"
proof -
  have a: "capacity_ordered source_config"
    by (simp add: capacity_ordered_def source_config_def)
  from main_passes_capacity[of cfg aws_region cp]
  obtain ext where "snd (main cfg aws_region cp []) = [] @ ext" "list_all (passes_capacity cfg) ext"
    unfolding only_iff by blast
  then have b: "list_all (passes_capacity cfg) (snd (main cfg aws_region cp []))"
    by simp
  have c: "snd (main cfg aws_region cp []) = []" if "rejects_image cfg"
    using that by (simp add: main_def rejects_image_def raise_def)
  from a b c main_first_call[of cfg aws_region cp] show ?thesis by blast
qed

text \<open>The same at the configuration whose minimum is above its maximum.\<close>

theorem capacity_passed_unchecked_witness:
  "list_all (passes_capacity disordered_config) (snd (main disordered_config None cp_accepting []))
   \<and> snd (main disordered_config None cp_accepting []) \<noteq> []
   \<and> \<not> rejects_image disordered_config"
proof -
  have "\<not> rejects_image disordered_config" by code_simp
  with capacity_passed_unchecked[of disordered_config None cp_accepting] show ?thesis by blast
qed

text \<open>
  C4, as stated, fails: with the bounds \<open>(min, desired, max) = (5, 2, 4)\<close> the builder is not
  stopped. On a control plane that accepts every call it runs to the end and asks for a
  scaling group with these bounds.
\<close>

theorem disordered_capacity_accepted:
  "\<not> capacity_ordered disordered_config
   \<and> fst (main disordered_config None cp_accepting []) = Done ()
   \<and> issued (CreateAutoScalingGroup ''s3-file-manager-asg'' 5 4 2
               ''subnet-us-east-1a,subnet-us-east-1b'' ''lt-1'' [''arn:tg'']
               [(''Name'', ''s3-file-manager-asg'', True), (''stack'', ''s3-file-manager'', True)])
        (snd (main disordered_config None cp_accepting [])) = 1"
  by code_simp

section \<open>Tags\<close>

text \<open>
  C5 against the code: in a complete run of the builder with the source's configuration,
  exactly one creation call attaches no stack tag, the one that creates the listener.
\<close>

theorem listener_created_untagged:
  "fst (main source_config None cp_accepting []) = Done ()
   \<and> filter (\<lambda>e. \<not> stack_tagged source_config e) (snd (main source_config None cp_accepting []))
     = [Call (CreateListener ''arn:lb'' ''arn:tg'') (Return (named ''arn:listener''))]"
  by code_simp

text \<open>So the run leaves one resource behind that the stack tag does not find.\<close>

theorem listener_created_untagged_witness:
  "length (filter (\<lambda>e. \<not> stack_tagged source_config e)
             (snd (main source_config None cp_accepting []))) = 1"
  using listener_created_untagged by simp

text \<open>Every other creation call of the builder carries the tag, in every run.\<close>

lemma builder_tags_all_but_listener:
  "only (\<lambda>e. stack_tagged cfg e \<or> (\<exists>lb tg r. e = Call (CreateListener lb tg) r))
     (main cfg aws_region cp)"
  unfolding main_def builder_defs Let_def
  by (auto intro!: only_intros only_wait_until_active
           simp: stack_tagged_def creation_tags_def tag_spec_def)

section \<open>The retry driver\<close>

lemma retry_unroll:
  assumes "n < fuel"
    and "\<forall>i<n. \<exists>e. fst (fn (failed_attempts msg fn delay i h)) = Raised e
            \<and> isinstance_ClientError e \<and> is_transient e"
  shows "retry fuel msg fn delay h
           = retry (fuel - n) msg fn delay (failed_attempts msg fn delay n h)"
  using assms
proof (induction n)
  case 0
  then show ?case by simp
next
  case (Suc n)
  from Suc.prems obtain e where
    e: "fst (fn (failed_attempts msg fn delay n h)) = Raised e"
       "isinstance_ClientError e" "is_transient e"
    by blast
  from Suc.prems have k: "fuel - n = Suc (fuel - Suc n)" by simp
  have "retry fuel msg fn delay h
          = retry (fuel - n) msg fn delay (failed_attempts msg fn delay n h)"
    using Suc by simp
  also have "\<dots> = retry (fuel - Suc n) msg fn delay (failed_attempts msg fn delay (Suc n) h)"
    using e unfolding k by (cases "fn (failed_attempts msg fn delay n h)") simp
  finally show ?case .
qed

lemma transient_code:
  "is_transient (ClientError ''DependencyViolation'' opn info m)"
  "is_transient (ClientError ''ResourceInUse'' opn info m)"
  unfolding is_transient_def str_exn.simps
  by (metis sublist_appendI)+

text \<open>
  C3, as amended. \<^verbatim>\<open>retry\<close> takes a caught \<^verbatim>\<open>ClientError\<close> for transient when its text
  \<^verbatim>\<open>str(e)\<close> contains \<^verbatim>\<open>DependencyViolation\<close> or \<^verbatim>\<open>ResourceInUse\<close>; an error whose code is
  one of the two is transient in this sense. If the first \<open>n\<close> invocations of the operation
  raise transient errors and invocation \<open>n + 1\<close> does not, then \<^verbatim>\<open>retry\<close> invokes the
  operation exactly \<open>n + 1\<close> times, prints its line and sleeps the fixed delay after each of
  the \<open>n\<close> failures, and ends right after invocation \<open>n + 1\<close>: with success when that
  invocation succeeded, and with the error it raised otherwise. The fuel only has to exceed
  \<open>n\<close>.
\<close>

theorem retry_outcome:
  assumes "n < fuel"
    and "\<forall>i<n. \<exists>e. fst (fn (failed_attempts msg fn delay i h)) = Raised e
            \<and> isinstance_ClientError e \<and> is_transient e"
    and "\<forall>e. fst (fn (failed_attempts msg fn delay n h)) = Raised e
            \<longrightarrow> \<not> (isinstance_ClientError e \<and> is_transient e)"
  shows "retry fuel msg fn delay h
           = (case fst (fn (failed_attempts msg fn delay n h)) of
                Done a \<Rightarrow> Done () | Raised e \<Rightarrow> Raised e | Spinning \<Rightarrow> Spinning,
              snd (fn (failed_attempts msg fn delay n h)))
       \<and> is_transient (ClientError ''DependencyViolation'' opn info m)
       \<and> is_transient (ClientError ''ResourceInUse'' opn info m)"
proof -
  let ?h = "failed_attempts msg fn delay n h"
  from assms(1) obtain k where k: "fuel - n = Suc k"
    by (metis Suc_diff_Suc)
  have u: "retry fuel msg fn delay h = retry (Suc k) msg fn delay ?h"
    using retry_unroll[OF assms(1,2)] k by simp
  have "retry (Suc k) msg fn delay ?h
          = (case fst (fn ?h) of Done a \<Rightarrow> Done () | Raised e \<Rightarrow> Raised e
               | Spinning \<Rightarrow> Spinning, snd (fn ?h))"
    using assms(3) by (cases "fn ?h") (auto split: outcome.splits)
  with u transient_code[of opn info m] show ?thesis by simp
qed

lemma dependency_violation_transient:
  "isinstance_ClientError dependency_violation \<and> is_transient dependency_violation"
  by code_simp

text \<open>
  The scenario of the specification: the delete of a security group is refused three times
  with a transient error and then succeeds. There are exactly four delete attempts and no
  error. Beside it, a delete that is refused for good: one attempt, and the error surfaces.
\<close>

theorem retry_outcome_witness:
  "retry 4 ''SG in use'' (call cp_sg_stuck (DeleteSecurityGroup ''sg-1'')) 15 []
     = (Done (),
        [Call (DeleteSecurityGroup ''sg-1'') (Raise dependency_violation),
         Print (waiting_line ''SG in use''), Sleep 15,
         Call (DeleteSecurityGroup ''sg-1'') (Raise dependency_violation),
         Print (waiting_line ''SG in use''), Sleep 15,
         Call (DeleteSecurityGroup ''sg-1'') (Raise dependency_violation),
         Print (waiting_line ''SG in use''), Sleep 15,
         Call (DeleteSecurityGroup ''sg-1'') (Return empty_payload)])
   \<and> retry 1 ''TG busy'' (call cp_tg_denied (DeleteTargetGroup ''tg'')) 15 []
     = (Raised not_authorized, [Call (DeleteTargetGroup ''tg'') (Raise not_authorized)])"
proof -
  let ?fn = "call cp_sg_stuck (DeleteSecurityGroup ''sg-1'')"
  let ?gn = "call cp_tg_denied (DeleteTargetGroup ''tg'')"
  have h1: "(3::nat) < 4" by simp
  have h2: "\<forall>i<3. \<exists>e. fst (?fn (failed_attempts ''SG in use'' ?fn 15 i [])) = Raised e
              \<and> isinstance_ClientError e \<and> is_transient e"
    by (simp only: numeral_3_eq_3 All_less_Suc)
       (simp add: call_def cp_sg_stuck_def issued_def dependency_violation_transient)
  have v: "?fn (failed_attempts ''SG in use'' ?fn 15 3 [])
     = (Done empty_payload,
        [Call (DeleteSecurityGroup ''sg-1'') (Raise dependency_violation),
         Print (waiting_line ''SG in use''), Sleep 15,
         Call (DeleteSecurityGroup ''sg-1'') (Raise dependency_violation),
         Print (waiting_line ''SG in use''), Sleep 15,
         Call (DeleteSecurityGroup ''sg-1'') (Raise dependency_violation),
         Print (waiting_line ''SG in use''), Sleep 15,
         Call (DeleteSecurityGroup ''sg-1'') (Return empty_payload)])"
    by code_simp
  have h3: "\<forall>e. fst (?fn (failed_attempts ''SG in use'' ?fn 15 3 [])) = Raised e
              \<longrightarrow> \<not> (isinstance_ClientError e \<and> is_transient e)"
    by (simp add: v)
  have g1: "(0::nat) < 1" by simp
  have g2: "\<forall>i<0. \<exists>e. fst (?gn (failed_attempts ''TG busy'' ?gn 15 i [])) = Raised e
              \<and> isinstance_ClientError e \<and> is_transient e"
    by simp
  have w: "?gn [] = (Raised not_authorized, [Call (DeleteTargetGroup ''tg'') (Raise not_authorized)])"
    by code_simp
  have nt: "\<not> is_transient not_authorized"
    by code_simp
  have g3: "\<forall>e. fst (?gn (failed_attempts ''TG busy'' ?gn 15 0 [])) = Raised e
              \<longrightarrow> \<not> (isinstance_ClientError e \<and> is_transient e)"
    by (simp add: w nt)
  from retry_outcome[OF h1 h2 h3] retry_outcome[OF g1 g2 g3] show ?thesis
    by (simp add: v w)
qed

text \<open>
  C3, as stated, fails: an error whose code is \<^verbatim>\<open>AccessDenied\<close>, and whose message mentions
  \<^verbatim>\<open>ResourceInUse\<close>, is not propagated. \<^verbatim>\<open>retry\<close> sleeps and invokes the operation again.
\<close>

theorem retry_swallows_other_code:
  "error_code access_denied = ''AccessDenied''
   \<and> retry 2 ''TG busy'' (call cp_denied_once (DeleteTargetGroup ''arn:tg'')) 15 []
     = (Done (), [Call (DeleteTargetGroup ''arn:tg'') (Raise access_denied),
                  Print (waiting_line ''TG busy''), Sleep 15,
                  Call (DeleteTargetGroup ''arn:tg'') (Return empty_payload)])"
  by code_simp

section \<open>The module config.py\<close>


section \<open>Creation order\<close>

lemma obeys_quiet:
  assumes "only creates_nothing m" and "prefix ks build_order"
  shows "obeys dep_step (\<lambda>s. s = ks) m (\<lambda>a s. s = ks) (\<lambda>x s. prefix s build_order)"
proof -
  have "obeys dep_step (\<lambda>s. s = ks) m (\<lambda>a s. s = ks) (\<lambda>x s. s = ks)"
    using assms(1)
    by (rule only_obeys) (auto simp: creates_nothing_def dep_step_def split: event.splits)
  then show ?thesis
    by (rule obeys_weaken) (use assms(2) in auto)
qed

lemma obeys_create:
  assumes "created_kind c = Some k" and "dependencies_met ks k"
    and "prefix (ks @ [k]) build_order" and "\<And>p. only creates_nothing (rest p)"
  shows "obeys dep_step (\<lambda>s. s = ks) (bind_p (call cp c) rest)
           (\<lambda>a s. s = ks @ [k]) (\<lambda>x s. prefix s build_order)"
proof (rule obeys_bind[where Q = "\<lambda>p s. s = ks @ [k]"])
  show "obeys dep_step (\<lambda>s. s = ks) (call cp c) (\<lambda>p s. s = ks @ [k])
          (\<lambda>x s. prefix s build_order)"
    by (rule obeys_call) (use assms(1-3) in \<open>auto simp: dep_step_def\<close>)
  show "obeys dep_step (\<lambda>s. s = ks @ [k]) (rest p)
          (\<lambda>a s. s = ks @ [k]) (\<lambda>x s. prefix s build_order)" for p
    using assms(4)[of p] assms(3) by (rule obeys_quiet)
qed

lemma quiet_intro: "created_kind c = None \<Longrightarrow> creates_nothing (Call c r)"
  "creates_nothing (Print s)" "creates_nothing (Sleep n)" "creates_nothing (PrintJson j)"
  by (simp_all add: creates_nothing_def)

lemma create_vpc_order:
  assumes "dependencies_met ks Network" and "prefix (ks @ [Network]) build_order"
  shows "obeys dep_step (\<lambda>s. s = ks) (create_vpc cfg cp)
           (\<lambda>a s. s = ks @ [Network]) (\<lambda>x s. prefix s build_order)"
  unfolding create_vpc_def Let_def
  by (rule obeys_create[OF _ assms])
     (auto intro!: only_intros quiet_intro simp: created_kind_def)


lemma create_igw_order:
  assumes "dependencies_met ks Gateway" and "prefix (ks @ [Gateway]) build_order"
  shows "obeys dep_step (\<lambda>s. s = ks) (create_igw cfg cp vpc_id)
           (\<lambda>a s. s = ks @ [Gateway]) (\<lambda>x s. prefix s build_order)"
  unfolding create_igw_def Let_def
  by (rule obeys_create[OF _ assms])
     (auto intro!: only_intros only_wait_until_active quiet_intro simp: created_kind_def)

lemma create_route_table_order:
  assumes "dependencies_met ks RouteTable" and "prefix (ks @ [RouteTable]) build_order"
  shows "obeys dep_step (\<lambda>s. s = ks) (create_route_table cfg cp vpc_id igw_id)
           (\<lambda>a s. s = ks @ [RouteTable]) (\<lambda>x s. prefix s build_order)"
  unfolding create_route_table_def Let_def
  by (rule obeys_create[OF _ assms])
     (auto intro!: only_intros only_wait_until_active quiet_intro simp: created_kind_def)

lemma create_public_subnet_order:
  assumes "dependencies_met ks Subnet" and "prefix (ks @ [Subnet]) build_order"
  shows "obeys dep_step (\<lambda>s. s = ks) (create_public_subnet cfg cp vpc_id cidr az rt_id idx)
           (\<lambda>a s. s = ks @ [Subnet]) (\<lambda>x s. prefix s build_order)"
  unfolding create_public_subnet_def Let_def
  by (rule obeys_create[OF _ assms])
     (auto intro!: only_intros only_wait_until_active quiet_intro simp: created_kind_def)

lemma create_ec2_sg_order:
  assumes "dependencies_met ks SecurityGroup" and "prefix (ks @ [SecurityGroup]) build_order"
  shows "obeys dep_step (\<lambda>s. s = ks) (create_ec2_sg cfg cp vpc_id)
           (\<lambda>a s. s = ks @ [SecurityGroup]) (\<lambda>x s. prefix s build_order)"
  unfolding create_ec2_sg_def Let_def
  by (rule obeys_create[OF _ assms])
     (auto intro!: only_intros only_wait_until_active quiet_intro simp: created_kind_def)

lemma create_target_group_order:
  assumes "dependencies_met ks TargetGroup" and "prefix (ks @ [TargetGroup]) build_order"
  shows "obeys dep_step (\<lambda>s. s = ks) (create_target_group cfg cp vpc_id)
           (\<lambda>a s. s = ks @ [TargetGroup]) (\<lambda>x s. prefix s build_order)"
  unfolding create_target_group_def Let_def
  by (rule obeys_create[OF _ assms])
     (auto intro!: only_intros only_wait_until_active quiet_intro simp: created_kind_def)

lemma create_nlb_order:
  assumes "dependencies_met ks LoadBalancer" and "prefix (ks @ [LoadBalancer]) build_order"
  shows "obeys dep_step (\<lambda>s. s = ks) (create_nlb cfg cp subnet_ids)
           (\<lambda>a s. s = ks @ [LoadBalancer]) (\<lambda>x s. prefix s build_order)"
  unfolding create_nlb_def Let_def
  by (rule obeys_create[OF _ assms])
     (auto intro!: only_intros only_wait_until_active quiet_intro simp: created_kind_def)

lemma create_nlb_listener_tcp_443_order:
  assumes "dependencies_met ks Listener" and "prefix (ks @ [Listener]) build_order"
  shows "obeys dep_step (\<lambda>s. s = ks) (create_nlb_listener_tcp_443 cp lb_arn tg_arn)
           (\<lambda>a s. s = ks @ [Listener]) (\<lambda>x s. prefix s build_order)"
  unfolding create_nlb_listener_tcp_443_def Let_def
  by (rule obeys_create[OF _ assms])
     (auto intro!: only_intros only_wait_until_active quiet_intro simp: created_kind_def)

lemma create_launch_template_order:
  assumes "dependencies_met ks LaunchTemplate" and "prefix (ks @ [LaunchTemplate]) build_order"
  shows "obeys dep_step (\<lambda>s. s = ks) (create_launch_template cfg cp sg_id)
           (\<lambda>a s. s = ks @ [LaunchTemplate]) (\<lambda>x s. prefix s build_order)"
  unfolding create_launch_template_def Let_def
  by (rule obeys_create[OF _ assms])
     (auto intro!: only_intros only_wait_until_active quiet_intro simp: created_kind_def)

lemma create_asg_order:
  assumes "dependencies_met ks ScalingGroup" and "prefix (ks @ [ScalingGroup]) build_order"
  shows "obeys dep_step (\<lambda>s. s = ks) (create_asg cfg cp lt_id subnet_ids tg_arn)
           (\<lambda>a s. s = ks @ [ScalingGroup]) (\<lambda>x s. prefix s build_order)"
proof -
  have "obeys dep_step (\<lambda>s. s = ks)
          (bind_p (call cp (CreateAutoScalingGroup (NAME cfg @ ''-asg'') (MIN_SIZE cfg)
                     (MAX_SIZE cfg) (DESIRED cfg) (join_comma subnet_ids) lt_id [tg_arn]
                     [(''Name'', NAME cfg @ ''-asg'', True), (''stack'', NAME cfg, True)]))
             (\<lambda>p. then_p (print (''ASG: '' @ NAME cfg @ ''-asg'')) (return_p (NAME cfg @ ''-asg''))))
          (\<lambda>a s. s = ks @ [ScalingGroup]) (\<lambda>x s. prefix s build_order)"
    by (rule obeys_create[OF _ assms])
       (auto intro!: only_intros quiet_intro simp: created_kind_def)
  then show ?thesis
    by (simp add: create_asg_def Let_def then_p_def)
qed


lemma main_order:
  "obeys dep_step (\<lambda>s. s = []) (main cfg aws_region cp)
     (\<lambda>a s. s = build_order) (\<lambda>x s. prefix s build_order)"
proof (cases "rejects_image cfg")
  case True
  show ?thesis
    unfolding main_def if_P[OF True[unfolded rejects_image_def]]
    by (rule obeys_raise) simp
next
  case False
  show ?thesis
    unfolding main_def if_not_P[OF False[unfolded rejects_image_def]]
    apply (rule obeys_bind, rule obeys_quiet[where ks = "[]"])
      apply (auto intro!: only_intros quiet_intro simp: pick_two_azs_def Let_def created_kind_def build_order_def)[2]
    apply (simp only: split_paired_all prod.case)
    apply (rule obeys_then, rule obeys_quiet[where ks = "[]"])
      apply (auto intro!: only_intros quiet_intro simp: build_order_def)[2]
    apply (rule obeys_bind, rule create_vpc_order[where ks = "[]"])
      apply (simp_all add: build_order_def dependencies_met_def)[2]
    apply (rule obeys_bind, rule create_igw_order)
      apply (simp_all add: build_order_def dependencies_met_def)[2]
    apply (rule obeys_bind, rule create_route_table_order)
      apply (simp_all add: build_order_def dependencies_met_def)[2]
    apply (rule obeys_bind, rule obeys_quiet)
      apply (auto intro!: only_intros simp: index_def build_order_def)[2]
    apply (rule obeys_bind, rule create_public_subnet_order)
      apply (simp_all add: build_order_def dependencies_met_def)[2]
    apply (rule obeys_bind, rule obeys_quiet)
      apply (auto intro!: only_intros simp: index_def build_order_def)[2]
    apply (rule obeys_bind, rule create_public_subnet_order)
      apply (simp_all add: build_order_def dependencies_met_def)[2]
    apply (rule obeys_bind, rule create_ec2_sg_order)
      apply (simp_all add: build_order_def dependencies_met_def)[2]
    apply (rule obeys_bind, rule create_target_group_order)
      apply (simp_all add: build_order_def dependencies_met_def)[2]
    apply (rule obeys_bind, rule create_nlb_order)
      apply (simp_all add: build_order_def dependencies_met_def)[2]
    apply (simp only: split_paired_all prod.case)
    apply (rule obeys_then, rule create_nlb_listener_tcp_443_order)
      apply (simp_all add: build_order_def dependencies_met_def)[2]
    apply (rule obeys_bind, rule create_launch_template_order)
      apply (simp_all add: build_order_def dependencies_met_def)[2]
    apply (rule obeys_bind, rule create_asg_order)
      apply (simp_all add: build_order_def dependencies_met_def)[2]
    apply (rule obeys_weaken[OF obeys_quiet])
        apply (auto intro!: only_intros quiet_intro simp: build_order_def)
    done
qed


text \<open>The monitor does reject a gateway that is created before any network.\<close>

lemma dep_step_rejects:
  "run dep_step [] [Call (CreateInternetGateway []) (Return empty_payload)] = None"
  by code_simp

text \<open>
  C1. In every run of the builder, whatever the configuration and whatever the control plane
  answers, each creation call is issued after the creation calls of all the resources it
  depends on: the monitor of the creation order accepts the history. The kinds are created
  in the order network, gateway, route table, subnet, subnet, security group, target group,
  load balancer, listener, launch template, scaling group, of which a run that fails midway
  has created a prefix and a run that returns has created all.
\<close>

theorem creation_order:
  "\<exists>seen. run dep_step [] (snd (main cfg aws_region cp [])) = Some seen
      \<and> prefix seen build_order
      \<and> (fst (main cfg aws_region cp []) = Done () \<longrightarrow> seen = build_order)"
proof -
  from obeys_run[OF main_order, of "[]" cfg aws_region cp]
  obtain s' where "run dep_step [] (snd (main cfg aws_region cp [])) = Some s'"
    "ended (\<lambda>a s. s = build_order) (\<lambda>x s. prefix s build_order)
       (fst (main cfg aws_region cp [])) s'"
    by auto
  then show ?thesis
    by (cases "fst (main cfg aws_region cp [])") auto
qed

text \<open>A complete run on a control plane that accepts every call.\<close>

theorem creation_order_witness:
  "run dep_step [] (snd (main source_config None cp_accepting [])) = Some build_order
   \<and> fst (main source_config None cp_accepting []) = Done ()"
proof -
  have "fst (main source_config None cp_accepting []) = Done ()"
    by code_simp
  with creation_order[of source_config None cp_accepting] show ?thesis
    by auto
qed

section \<open>Waiting for the load balancer\<close>

lemma obeys_off_balancer:
  assumes "only off_balancer m"
  shows "obeys poll_step (\<lambda>s. s = NoBalancer) m (\<lambda>a s. s = NoBalancer) wait_ends"
proof -
  have "obeys poll_step (\<lambda>s. s = NoBalancer) m (\<lambda>a s. s = NoBalancer) (\<lambda>x s. s = NoBalancer)"
    using assms
    by (rule only_obeys)
       (auto simp: off_balancer_def poll_step_def split: event.splits api_call.splits)
  then show ?thesis
    by (rule obeys_weaken) (auto simp: wait_ends_def)
qed

lemma obeys_poll_print: "obeys poll_step (\<lambda>s. s = k) (print msg) (\<lambda>a s. s = k) X"
  unfolding print_def by (rule obeys_emit) (simp add: poll_step_def)

lemma obeys_poll_wait: "obeys poll_step (\<lambda>s. s = k) (wait msg n) (\<lambda>a s. s = k) X"
  unfolding wait_def sleep_def
  by (rule obeys_then[OF obeys_poll_print], rule obeys_emit) (simp add: poll_step_def)

lemma wait_until_active_polls:
  assumes "n \<le> 30"
  shows "obeys poll_step (\<lambda>s. s = Polling arn (30 - n)) (wait_until_active cp arn n)
           (\<lambda>a s. s = Active arn \<or> s = Polling arn 30) wait_ends"
  using assms
proof (induction n)
  case 0
  show ?case by (simp add: obeys_return)
next
  case (Suc n)
  then have n: "Suc (30 - Suc n) = 30 - n" "30 - Suc n < 30" by simp_all
  show ?case
    unfolding wait_until_active.simps
  proof (rule obeys_bind[where Q = "\<lambda>desc s. (StateCode desc = ''active'' \<and> s = Active arn)
            \<or> (StateCode desc \<noteq> ''active'' \<and> s = Polling arn (30 - n))"])
    show "obeys poll_step (\<lambda>s. s = Polling arn (30 - Suc n))
            (call cp (DescribeLoadBalancers (Some [arn])))
            (\<lambda>desc s. (StateCode desc = ''active'' \<and> s = Active arn)
               \<or> (StateCode desc \<noteq> ''active'' \<and> s = Polling arn (30 - n))) wait_ends"
      by (rule obeys_call) (use n in \<open>auto simp: poll_step_def wait_ends_def\<close>)
  next
    fix desc :: payload
    show "obeys poll_step
            (\<lambda>s. (StateCode desc = ''active'' \<and> s = Active arn)
               \<or> (StateCode desc \<noteq> ''active'' \<and> s = Polling arn (30 - n)))
            (if StateCode desc = ''active'' then return_p ()
             else then_p (wait ''Waiting for NLB to become active...'' 2)
                    (wait_until_active cp arn n))
            (\<lambda>a s. s = Active arn \<or> s = Polling arn 30) wait_ends"
    proof (cases "StateCode desc = ''active''")
      case True
      then show ?thesis by (simp add: obeys_return)
    next
      case False
      have "obeys poll_step (\<lambda>s. s = Polling arn (30 - n))
              (then_p (wait ''Waiting for NLB to become active...'' 2)
                 (wait_until_active cp arn n))
              (\<lambda>a s. s = Active arn \<or> s = Polling arn 30) wait_ends"
        by (rule obeys_then[OF obeys_poll_wait]) (use Suc in simp)
      with False show ?thesis by simp
    qed
  qed
qed

lemma create_nlb_polls:
  "obeys poll_step (\<lambda>s. s = NoBalancer) (create_nlb cfg cp subnet_ids)
     (\<lambda>a s. s = Active (fst a) \<or> s = Polling (fst a) 30) wait_ends"
  unfolding create_nlb_def Let_def
proof (rule obeys_bind[where Q = "\<lambda>lb s. s = Polling (ResourceId lb) 0"])
  show "obeys poll_step (\<lambda>s. s = NoBalancer)
          (call cp (CreateLoadBalancer (NAME cfg @ ''-nlb'') subnet_ids
                      [(''stack'', NAME cfg), (''Name'', NAME cfg @ ''-nlb'')]))
          (\<lambda>lb s. s = Polling (ResourceId lb) 0) wait_ends"
    by (rule obeys_call) (auto simp: poll_step_def wait_ends_def)
next
  fix lb :: payload
  show "obeys poll_step (\<lambda>s. s = Polling (ResourceId lb) 0)
          (then_p (print (''NLB: '' @ ResourceId lb))
          (then_p (print (''NLB DNS: '' @ DNSName lb))
          (then_p (wait_until_active cp (ResourceId lb) 30)
          (return_p (ResourceId lb, DNSName lb)))))
          (\<lambda>a s. s = Active (fst a) \<or> s = Polling (fst a) 30) wait_ends"
    apply (rule obeys_then[OF obeys_poll_print])
    apply (rule obeys_then[OF obeys_poll_print])
    apply (rule obeys_then[where Q = "\<lambda>s. s = Active (ResourceId lb) \<or> s = Polling (ResourceId lb) 30"])
     apply (rule wait_until_active_polls[of 30, simplified])
    apply (rule obeys_return)
    apply simp
    done
qed

lemma create_listener_polls:
  "obeys poll_step (\<lambda>s. s = Active lb \<or> s = Polling lb 30)
     (create_nlb_listener_tcp_443 cp lb tg) (\<lambda>a s. s = NoBalancer) wait_ends"
  unfolding create_nlb_listener_tcp_443_def Let_def
  apply (rule obeys_bind[where Q = "\<lambda>a s. s = NoBalancer"])
   apply (rule obeys_call)
    apply (auto simp: poll_step_def wait_ends_def)[2]
  apply (rule obeys_then[OF obeys_poll_print])
  apply (rule obeys_return)
  apply simp
  done


lemma main_polls:
  "obeys poll_step (\<lambda>s. s = NoBalancer) (main cfg aws_region cp)
     (\<lambda>a s. s = NoBalancer) wait_ends"
proof (cases "rejects_image cfg")
  case True
  show ?thesis
    unfolding main_def if_P[OF True[unfolded rejects_image_def]]
    by (rule obeys_raise) (simp add: wait_ends_def)
next
  case False
  note off = obeys_off_balancer
  show ?thesis
    unfolding main_def if_not_P[OF False[unfolded rejects_image_def]]
    apply (rule obeys_bind, rule off)
     apply (auto intro!: only_intros simp: pick_two_azs_def Let_def off_balancer_def)[1]
    apply (simp only: split_paired_all prod.case)
    apply (rule obeys_then, rule off)
     apply (auto intro!: only_intros simp: off_balancer_def)[1]
    apply (rule obeys_bind, rule off)
     apply (auto intro!: only_intros simp: create_vpc_def Let_def off_balancer_def)[1]
    apply (rule obeys_bind, rule off)
     apply (auto intro!: only_intros simp: create_igw_def Let_def off_balancer_def)[1]
    apply (rule obeys_bind, rule off)
     apply (auto intro!: only_intros simp: create_route_table_def Let_def off_balancer_def)[1]
    apply (rule obeys_bind, rule off)
     apply (auto intro!: only_intros simp: index_def)[1]
    apply (rule obeys_bind, rule off)
     apply (auto intro!: only_intros simp: create_public_subnet_def Let_def off_balancer_def)[1]
    apply (rule obeys_bind, rule off)
     apply (auto intro!: only_intros simp: index_def)[1]
    apply (rule obeys_bind, rule off)
     apply (auto intro!: only_intros simp: create_public_subnet_def Let_def off_balancer_def)[1]
    apply (rule obeys_bind, rule off)
     apply (auto intro!: only_intros simp: create_ec2_sg_def Let_def off_balancer_def)[1]
    apply (rule obeys_bind, rule off)
     apply (auto intro!: only_intros simp: create_target_group_def Let_def off_balancer_def)[1]
    apply (rule obeys_bind, rule create_nlb_polls)
    apply (simp only: split_paired_all prod.case fst_conv)
    apply (rule obeys_then, rule create_listener_polls)
    apply (rule off)
    apply (auto intro!: only_intros simp: create_launch_template_def create_asg_def Let_def off_balancer_def)
    done
qed

text \<open>The monitor does reject a listener that is created before any poll.\<close>

lemma poll_step_rejects:
  "run poll_step NoBalancer
     [Call (CreateLoadBalancer n ss ts) (Return (named ''arn:lb'')),
      Call (CreateListener ''arn:lb'' tg) r] = None"
  by (simp add: poll_step_def named_def empty_payload_def)

text \<open>
  C9. In every run of the builder, after the call that created the load balancer and before
  the call that creates the listener, the builder only polls the state of that balancer: at
  most thirty times, and never again once a poll reported \<^verbatim>\<open>active\<close>. The listener is created
  right after a poll that reported \<^verbatim>\<open>active\<close> or after thirty polls that did not; the run does
  not end inside the wait unless a poll raised, so an exhausted budget is no error and the
  builder goes on to create the listener.
\<close>

theorem balancer_wait:
  "\<exists>s. run poll_step NoBalancer (snd (main cfg aws_region cp [])) = Some s
      \<and> (s = NoBalancer
           \<or> s = PollFailed \<and> (\<exists>e. fst (main cfg aws_region cp []) = Raised e))"
proof -
  from obeys_run[OF main_polls, of NoBalancer cfg aws_region cp]
  obtain s' where "run poll_step NoBalancer (snd (main cfg aws_region cp [])) = Some s'"
    "ended (\<lambda>a s. s = NoBalancer) wait_ends (fst (main cfg aws_region cp [])) s'"
    by auto
  then show ?thesis
    by (cases "fst (main cfg aws_region cp [])") (auto simp: wait_ends_def)
qed

text \<open>
  A balancer that never becomes active: thirty polls, then the listener, and the run
  completes.
\<close>

theorem balancer_wait_witness:
  "run poll_step NoBalancer (snd (main source_config None cp_never_active [])) = Some NoBalancer
   \<and> fst (main source_config None cp_never_active []) = Done ()
   \<and> issued (DescribeLoadBalancers (Some [''arn:lb''])) (snd (main source_config None cp_never_active [])) = 30
   \<and> issued (CreateListener ''arn:lb'' ''arn:tg'') (snd (main source_config None cp_never_active [])) = 1"
proof -
  have "fst (main source_config None cp_never_active []) = Done ()
   \<and> issued (DescribeLoadBalancers (Some [''arn:lb''])) (snd (main source_config None cp_never_active [])) = 30
   \<and> issued (CreateListener ''arn:lb'' ''arn:tg'') (snd (main source_config None cp_never_active [])) = 1"
    by code_simp
  with balancer_wait[of source_config None cp_never_active] show ?thesis
    by auto
qed

section \<open>The reaper's blocks\<close>

lemmas reaper_defs =
  delete_asgs_def delete_nlbs_def delete_target_groups_def delete_launch_templates_def
  delete_security_groups_def delete_igws_def delete_subnets_def delete_route_tables_def
  delete_vpcs_def

section \<open>Draining a scaling group\<close>

lemma obeys_no_group:
  assumes "only deletes_no_group m"
  shows "obeys settle_step (\<lambda>s. True) m (\<lambda>a s. True) (\<lambda>x s. True)"
  using assms
  by (rule only_obeys)
     (auto simp: deletes_no_group_def settle_step_def split: event.splits api_call.splits)

lemma drain_one:
  "obeys settle_step (\<lambda>s. True)
     (then_p (print line)
     (then_p (call_unit cp (UpdateAutoScalingGroup name 0 0 0))
     (then_p (sleep 20)
     (call_unit cp (DeleteAutoScalingGroup name True)))))
     (\<lambda>a s. True) (\<lambda>x s. True)"
  apply (rule obeys_then[where Q = "\<lambda>s. True"])
   apply (simp add: print_def, rule obeys_emit, simp add: settle_step_def)
  apply (rule obeys_then[where Q = "\<lambda>s. \<exists>p tl. s = Call (UpdateAutoScalingGroup name 0 0 0) (Return p) # tl"])
   apply (rule obeys_call_unit; simp add: settle_step_def)
  apply (rule obeys_then[where Q = "zeroed_and_settled name"])
   apply (simp add: sleep_def, rule obeys_emit)
   apply (auto simp: settle_step_def zeroed_and_settled_def split: list.splits)[1]
  apply (rule obeys_call_unit)
   apply (auto simp: settle_step_def)
  done

lemma delete_asgs_settles:
  "obeys settle_step (\<lambda>s. True) (delete_asgs cp) (\<lambda>a s. True) (\<lambda>x s. True)"
  unfolding delete_asgs_def Let_def
  apply (rule obeys_then[where Q = "\<lambda>s. True"])
   apply (rule obeys_no_group, auto intro!: only_intros simp: deletes_no_group_def)[1]
  apply (rule obeys_bind[where Q = "\<lambda>a s. True"])
   apply (rule obeys_no_group, auto intro!: only_intros simp: deletes_no_group_def)[1]
  apply (rule obeys_for_each)
  apply (rule obeys_when)
   apply (rule drain_one)
  apply simp
  done

lemma destroy_settles:
  "obeys settle_step (\<lambda>s. True) (destroy fuel cp) (\<lambda>a s. True) (\<lambda>x s. True)"
  unfolding destroy_def
  apply (rule obeys_then[OF delete_asgs_settles])
  apply (rule obeys_no_group)
  apply (unfold reaper_defs Let_def)
  apply (auto intro!: only_intros simp: deletes_no_group_def)
  done

text \<open>
  C7, as amended. In every run of the reaper, whatever the control plane answers, each
  delete of a scaling group comes right after a successful call that set the group's
  minimum, maximum and desired capacity to zero and a sleep of twenty seconds, and each such
  delete is forced.
\<close>

theorem drained_before_delete:
  "\<exists>s. run settle_step [] (snd (destroy fuel cp [])) = Some s"
  using obeys_run[OF destroy_settles, of "[]" fuel cp] by auto


text \<open>A run on the simulated stack: one group, deleted once, with force.\<close>

theorem drained_before_delete_witness:
  "issued (DeleteAutoScalingGroup ''asg'' True) (snd (destroy 1 cp_stack [])) = 1
   \<and> (\<exists>s. run settle_step [] (snd (destroy 1 cp_stack [])) = Some s)"
proof -
  have "issued (DeleteAutoScalingGroup ''asg'' True) (snd (destroy 1 cp_stack [])) = 1"
    by code_simp
  with drained_before_delete[of 1 cp_stack] show ?thesis by simp
qed

text \<open>The monitor does reject a delete without the drain, and a delete without force.\<close>

lemma settle_step_rejects:
  "run settle_step [] [Call (DeleteAutoScalingGroup ''asg'' True) r] = None"
  "run settle_step [] [Call (UpdateAutoScalingGroup ''asg'' 0 0 0) (Return p), Sleep 20,
                       Call (DeleteAutoScalingGroup ''asg'' False) r] = None"
  by (simp_all add: settle_step_def zeroed_and_settled_def)

text \<open>
  C7, as stated, fails: force is no last resort. On the simulated stack, where every call
  succeeds, the only delete of the scaling group is forced, and no delete without force was
  tried before it.
\<close>

theorem force_on_first_delete:
  "fst (destroy 1 cp_stack []) = Done ()
   \<and> run last_resort_step [] (snd (destroy 1 cp_stack [])) = None
   \<and> issued (DeleteAutoScalingGroup ''asg'' True) (snd (destroy 1 cp_stack [])) = 1
   \<and> issued (DeleteAutoScalingGroup ''asg'' False) (snd (destroy 1 cp_stack [])) = 0"
  by code_simp

section \<open>Errors during teardown\<close>

lemma aborting_return: "aborting (return_p a)"
  unfolding aborting_def by (rule obeys_return) simp

lemma aborting_print: "aborting (print s)"
  unfolding aborting_def print_def by (rule obeys_emit) (simp add: abort_step_def)

lemma aborting_sleep: "aborting (sleep n)"
  unfolding aborting_def sleep_def by (rule obeys_emit) (simp add: abort_step_def)

lemma aborting_call: "\<not> retried c \<Longrightarrow> aborting (call cp c)"
  unfolding aborting_def
  by (rule obeys_call) (simp_all add: abort_step_def absorbed_def)

lemma aborting_bind: "aborting m \<Longrightarrow> (\<And>a. aborting (f a)) \<Longrightarrow> aborting (bind_p m f)"
  unfolding aborting_def by (rule obeys_bind)

lemma aborting_then: "aborting m \<Longrightarrow> aborting n \<Longrightarrow> aborting (then_p m n)"
  unfolding then_p_def by (rule aborting_bind)

lemma aborting_call_unit: "\<not> retried c \<Longrightarrow> aborting (call_unit cp c)"
  unfolding call_unit_def by (intro aborting_then aborting_call aborting_return)

lemma aborting_for_each:
  "(\<And>x. x \<in> set xs \<Longrightarrow> aborting (body x)) \<Longrightarrow> aborting (for_each xs body)"
  unfolding aborting_def by (rule obeys_for_each)

lemma aborting_when: "(c \<Longrightarrow> aborting body) \<Longrightarrow> aborting (when_p c body)"
  unfolding aborting_def by (rule obeys_when) simp_all

lemma aborting_retry:
  assumes "retried c"
  shows "aborting (retry fuel msg (call cp c) delay)"
  unfolding aborting_def
proof (rule obeys_retry)
  show "obeys abort_step (\<lambda>s. s = None) (call cp c) (\<lambda>a s. s = None)
          (after_failure abort_step msg delay (\<lambda>s. s = None) (\<lambda>x s. s = x))"
    by (rule obeys_call)
       (use assms in \<open>auto simp: abort_step_def absorbed_def after_failure_def\<close>)
qed simp

lemmas aborting_intros =
  aborting_return aborting_print aborting_sleep aborting_call aborting_call_unit
  aborting_bind aborting_then aborting_for_each aborting_when aborting_retry

lemma destroy_aborting: "aborting (destroy fuel cp)"
  unfolding destroy_def reaper_defs Let_def
  by (auto intro!: aborting_intros simp: retried_def)

text \<open>
  C8, as amended. In every run of the reaper an error that \<^verbatim>\<open>retry\<close> does not absorb ends
  the whole run: the call that raised it is the last event, and the run ends with that
  error. The absorbed errors, the transient ones of the calls wrapped in \<^verbatim>\<open>retry\<close>, do not
  end the run; every error of a call that is not wrapped does.
\<close>

theorem first_error_ends_run:
  "run abort_step None (snd (destroy fuel cp []))
     = Some (case fst (destroy fuel cp []) of Raised e \<Rightarrow> Some e | _ \<Rightarrow> None)"
  using obeys_run[OF destroy_aborting[unfolded aborting_def], of None fuel cp]
  by (cases "fst (destroy fuel cp [])") auto

text \<open>A run in which the delete of the target group is refused.\<close>

theorem first_error_ends_run_witness:
  "run abort_step None (snd (destroy 1 cp_tg_denied [])) = Some (Some not_authorized)
   \<and> fst (destroy 1 cp_tg_denied []) = Raised not_authorized"
proof -
  have "fst (destroy 1 cp_tg_denied []) = Raised not_authorized"
    by code_simp
  with first_error_ends_run[of 1 cp_tg_denied] show ?thesis by simp
qed

text \<open>
  C8, as stated, fails: after the refused delete of a target group the reaper attempts
  nothing else. The control plane would list a launch template, a security group and a
  network of the stack, but the reaper never asks for them.
\<close>

theorem error_stops_other_kinds:
  "fst (destroy 1 cp_tg_denied []) = Raised not_authorized
   \<and> \<not> is_transient not_authorized
   \<and> last (snd (destroy 1 cp_tg_denied [])) = Call (DeleteTargetGroup ''tg'') (Raise not_authorized)
   \<and> issued DescribeLaunchTemplates (snd (destroy 1 cp_tg_denied [])) = 0
   \<and> issued DescribeSecurityGroups (snd (destroy 1 cp_tg_denied [])) = 0
   \<and> issued DescribeVpcs (snd (destroy 1 cp_tg_denied [])) = 0"
  by code_simp

section \<open>Teardown order\<close>

lemma obeys_stage:
  assumes "only (in_stage j v) m"
    and "lo \<le> j" and "j < 3 \<or> 2 \<le> lo" and "j < 6 \<or> 6 \<le> lo"
  shows "obeys teardown_step (within lo j v) m (\<lambda>a. within lo j v) (\<lambda>x s. True)"
proof -
  have "obeys teardown_step (within lo j v) m (\<lambda>a. within lo j v) (\<lambda>x. within lo j v)"
    using assms(1)
  proof (rule only_obeys)
    fix s e assume "in_stage j v e" "within lo j v s"
    then show "\<exists>s'. teardown_step s e = Some s' \<and> within lo j v s'"
      using assms(2-4)
      by (cases "stage_of e") (auto simp: in_stage_def within_def teardown_step_def)
  qed
  then show ?thesis
    by (rule obeys_weaken) auto
qed

lemma obeys_stage_from:
  assumes "only (in_stage j v) m"
    and "lo \<le> i" and "i \<le> j" and "j < 3 \<or> 2 \<le> lo" and "j < 6 \<or> 6 \<le> lo"
  shows "obeys teardown_step (within lo i v) m (\<lambda>a. within lo j v) (\<lambda>x s. True)"
proof -
  from assms have "obeys teardown_step (within lo j v) m (\<lambda>a. within lo j v) (\<lambda>x s. True)"
    by (intro obeys_stage) auto
  then show ?thesis
    by (rule obeys_weaken) (use assms(3) in \<open>auto simp: within_def\<close>)
qed

lemma obeys_unstaged:
  assumes "only (\<lambda>e. opens_network e = None \<and> stage_of e = None) m"
  shows "obeys teardown_step I m (\<lambda>a. I) (\<lambda>x s. True)"
proof -
  have "obeys teardown_step I m (\<lambda>a. I) (\<lambda>x. I)"
    using assms by (rule only_obeys) (auto simp: teardown_step_def)
  then show ?thesis
    by (rule obeys_weaken) auto
qed

lemmas stage_defs = in_stage_def stage_of_def opens_network_def names_network_def

lemma delete_asgs_stage:
  "obeys teardown_step (within 0 0 v) (delete_asgs cp) (\<lambda>a. within 0 0 v) (\<lambda>x s. True)"
  by (rule obeys_stage_from)
     (auto intro!: only_intros simp: delete_asgs_def Let_def stage_defs)

lemma delete_nlbs_stage:
  "obeys teardown_step (within 0 0 v) (delete_nlbs cp) (\<lambda>a. within 2 2 v) (\<lambda>x s. True)"
  unfolding delete_nlbs_def
  apply (rule obeys_then[where Q = "within 0 1 v"])
   apply (rule obeys_stage_from)
       apply (auto intro!: only_intros simp: stage_defs)[5]
  apply (rule obeys_then[where Q = "within 0 1 v"])
   apply (rule obeys_stage_from)
       apply (auto intro!: only_intros simp: stage_defs)[5]
  apply (rule obeys_then[where Q = "within 0 1 v"])
   apply (rule obeys_stage_from)
       apply (auto intro!: only_intros simp: stage_defs)[5]
  apply (simp add: sleep_def)
  apply (rule obeys_emit)
  apply (auto simp: teardown_step_def within_def stage_defs)
  done

lemma delete_target_groups_stage:
  "obeys teardown_step (within 2 2 v) (delete_target_groups fuel cp) (\<lambda>a. within 2 3 v)
     (\<lambda>x s. True)"
  by (rule obeys_stage_from)
     (auto intro!: only_intros simp: delete_target_groups_def stage_defs)

lemma delete_launch_templates_stage:
  "obeys teardown_step (within 2 3 v) (delete_launch_templates cp) (\<lambda>a. within 2 4 v)
     (\<lambda>x s. True)"
  by (rule obeys_stage_from)
     (auto intro!: only_intros simp: delete_launch_templates_def stage_defs)

lemma delete_security_groups_stage:
  "obeys teardown_step (within 2 4 v) (delete_security_groups fuel cp) (\<lambda>a. within 2 5 v)
     (\<lambda>x s. True)"
  by (rule obeys_stage_from)
     (auto intro!: only_intros simp: delete_security_groups_def stage_defs)

lemma delete_igws_stage:
  "obeys teardown_step (\<lambda>s. 2 \<le> fst s) (delete_igws fuel cp v) (\<lambda>a. within 6 6 v)
     (\<lambda>x s. True)"
  unfolding delete_igws_def Let_def
  apply (rule obeys_bind[where Q = "\<lambda>a. within 6 6 v"])
   apply (rule obeys_call)
    apply (auto simp: teardown_step_def within_def stage_defs)[2]
  apply (rule obeys_stage_from)
      apply (auto intro!: only_intros simp: stage_defs)
  done

lemma delete_subnets_stage:
  "obeys teardown_step (within 6 6 v) (delete_subnets fuel cp v) (\<lambda>a. within 6 7 v)
     (\<lambda>x s. True)"
  by (rule obeys_stage_from)
     (auto intro!: only_intros simp: delete_subnets_def stage_defs)

lemma delete_route_tables_stage:
  "obeys teardown_step (within 6 7 v) (delete_route_tables fuel cp v) (\<lambda>a. within 6 8 v)
     (\<lambda>x s. True)"
  by (rule obeys_stage_from)
     (auto intro!: only_intros simp: delete_route_tables_def stage_defs)

lemma delete_vpc_stage:
  "obeys teardown_step (within 6 8 v) (retry fuel ''VPC busy'' (call cp (DeleteVpc v)) 15)
     (\<lambda>a. within 6 9 v) (\<lambda>x s. True)"
  by (rule obeys_stage_from)
     (auto intro!: only_intros simp: stage_defs)

lemma delete_vpcs_stage:
  "obeys teardown_step (\<lambda>s. 2 \<le> fst s) (delete_vpcs fuel cp) (\<lambda>a s. 2 \<le> fst s)
     (\<lambda>x s. True)"
  unfolding delete_vpcs_def Let_def
  apply (rule obeys_then[where Q = "\<lambda>s. 2 \<le> fst s"])
   apply (rule obeys_unstaged, auto intro!: only_intros simp: stage_defs)[1]
  apply (rule obeys_bind[where Q = "\<lambda>a s. 2 \<le> fst s"])
   apply (rule obeys_unstaged, auto intro!: only_intros simp: stage_defs)[1]
  apply (rule obeys_for_each)
  apply (rule obeys_when)
   apply (rule obeys_then[where Q = "\<lambda>s. 2 \<le> fst s"])
    apply (rule obeys_unstaged, auto intro!: only_intros simp: stage_defs)[1]
   apply (rule obeys_then[OF delete_igws_stage])
   apply (rule obeys_then[OF delete_subnets_stage])
   apply (rule obeys_then[OF delete_route_tables_stage])
   apply (rule obeys_weaken[OF delete_vpc_stage])
     apply (auto simp: within_def)
  done

lemma destroy_stage:
  "obeys teardown_step (within 0 0 []) (destroy fuel cp) (\<lambda>a s. True) (\<lambda>x s. True)"
  unfolding destroy_def
  apply (rule obeys_then[OF delete_asgs_stage])
  apply (rule obeys_then[OF delete_nlbs_stage])
  apply (rule obeys_then[OF delete_target_groups_stage])
  apply (rule obeys_then[OF delete_launch_templates_stage])
  apply (rule obeys_then[OF delete_security_groups_stage])
  apply (rule obeys_then[where Q = "\<lambda>s. 2 \<le> fst s"])
   apply (rule obeys_weaken[OF delete_vpcs_stage])
     apply (auto simp: within_def)[3]
  apply (rule obeys_weaken[where Q' = "\<lambda>a s. 2 \<le> fst s" and P' = "\<lambda>s. 2 \<le> fst s"])
     apply (rule obeys_unstaged, auto intro!: only_intros simp: stage_defs)
  done

subsection \<open>From the stages to the dependencies\<close>

lemma deleted_kind_stage:
  "deleted_kind c = Some k \<Longrightarrow> stage_of (Call c r) = Some (kind_stage k)"
  by (cases c) (auto simp: deleted_kind_def stage_of_def)

lemma dependency_later:
  "d \<in> set (map fst (depends_on k)) \<Longrightarrow> \<not> (k = RouteTable \<and> d = Gateway)
     \<Longrightarrow> kind_stage k < kind_stage d"
  by (cases k) auto

lemma scoped_stage: "network_scoped k \<longleftrightarrow> 6 \<le> kind_stage k"
  by (cases k) (simp_all add: network_scoped_def)

lemma order_step:
  assumes "teardown_step s e = Some s'"
    and "\<forall>d\<in>set gone. kind_stage d \<le> fst s"
  shows "\<exists>gone'. reverse_dep_except_step gone e = Some gone'
           \<and> (\<forall>d\<in>set gone'. kind_stage d \<le> fst s')"
proof (cases "opens_network e")
  case (Some v)
  with assms show ?thesis
    by (auto simp: teardown_step_def reverse_dep_except_step_def scoped_stage
             split: if_splits)
next
  case None
  show ?thesis
  proof (cases e)
    case (Call c r)
    show ?thesis
    proof (cases "deleted_kind c")
      case dn: None
      have "fst s \<le> fst s'"
        using assms(1) None by (auto simp: teardown_step_def split: option.splits if_splits)
      with assms(2) dn None Call show ?thesis
        by (fastforce simp: reverse_dep_except_step_def)
    next
      case (Some k)
      from deleted_kind_stage[OF Some, of r] Call
      have st: "stage_of e = Some (kind_stage k)" by simp
      with assms(1) None have s': "s' = (kind_stage k, snd s)" "fst s \<le> kind_stage k"
        by (auto simp: teardown_step_def split: if_splits)
      have "\<not> list_ex (\<lambda>d. d \<in> set gone \<and> \<not> (k = RouteTable \<and> d = Gateway))
                (map fst (depends_on k))"
      proof
        assume "list_ex (\<lambda>d. d \<in> set gone \<and> \<not> (k = RouteTable \<and> d = Gateway))
                  (map fst (depends_on k))"
        then obtain d where d: "d \<in> set (map fst (depends_on k))" "d \<in> set gone"
          "\<not> (k = RouteTable \<and> d = Gateway)"
          unfolding list_ex_iff by blast
        from dependency_later[OF d(1,3)] assms(2) d(2) s'(2) show False
          by fastforce
      qed
      with Some None Call s' assms(2) show ?thesis
        by (fastforce simp: reverse_dep_except_step_def)
    qed
  next
    case (Sleep n)
    have "fst s \<le> fst s'"
      using assms(1) None by (auto simp: teardown_step_def split: option.splits if_splits)
    with assms(2) None Sleep show ?thesis
      by (fastforce simp: reverse_dep_except_step_def)
  next
    case (Print x)
    with assms None show ?thesis
      by (auto simp: teardown_step_def reverse_dep_except_step_def stage_of_def)
  next
    case (PrintJson x)
    with assms None show ?thesis
      by (auto simp: teardown_step_def reverse_dep_except_step_def stage_of_def)
  qed
qed

lemma order_run:
  assumes "run teardown_step s h = Some s'"
    and "\<forall>d\<in>set gone. kind_stage d \<le> fst s"
  shows "\<exists>gone'. run reverse_dep_except_step gone h = Some gone'"
  using assms
proof (induction h arbitrary: s gone)
  case Nil
  then show ?case by simp
next
  case (Cons e h)
  from Cons.prems(1) obtain s1 where s1: "teardown_step s e = Some s1"
    "run teardown_step s1 h = Some s'"
    by (auto split: option.splits)
  from order_step[OF s1(1) Cons.prems(2)] obtain g1 where
    g1: "reverse_dep_except_step gone e = Some g1" "\<forall>d\<in>set g1. kind_stage d \<le> fst s1"
    by blast
  from Cons.IH[OF s1(2) g1(2)] g1(1) show ?case by simp
qed

text \<open>The monitors do reject histories out of order.\<close>

lemma teardown_step_rejects:
  "run teardown_step (0, []) [Call (DeleteLoadBalancer lb) r, Call (DeleteAutoScalingGroup g f) r'] = None"
  "run teardown_step (0, []) [Call (DeleteTargetGroup tg) r] = None"
  "run teardown_step (0, []) [Sleep 60, Call (DescribeInternetGateways ''v'') r,
                             Call (DeleteVpc ''v'') r1, Call (DeleteSubnet sn) r2] = None"
  "run teardown_step (0, []) [Sleep 60, Call (DescribeInternetGateways ''v'') r,
                             Call (DeleteVpc ''w'') r1] = None"
  by (simp_all add: teardown_step_def stage_defs)

lemma reverse_dep_except_step_rejects:
  "run reverse_dep_except_step [] [Call (DeleteVpc v) r, Call (DeleteSubnet sn) r'] = None"
  "run reverse_dep_except_step [] [Call (DeleteSecurityGroup g) r,
                                   Call (DeleteLaunchTemplate lt) r'] = None"
  by (simp_all add: reverse_dep_except_step_def opens_network_def deleted_kind_def)

text \<open>
  C2, as amended. In every run of the reaper, whatever the control plane answers, the
  deletes are issued in the order of the stages: scaling groups, then load balancers, then
  the wait of sixty seconds, then target groups, launch templates and security groups, and
  then, for each tagged network in turn, its gateways (detached, then deleted), its subnets,
  its route tables and last the network itself. So every resource is deleted before the
  resources it depended on at creation, with one exception: the route tables of a network
  are deleted after the gateway they depended on.
\<close>

theorem teardown_order:
  "(\<exists>s. run teardown_step (0, []) (snd (destroy fuel cp [])) = Some s)
   \<and> (\<exists>gone. run reverse_dep_except_step [] (snd (destroy fuel cp [])) = Some gone)"
proof -
  from obeys_run[OF destroy_stage, of "(0, [])" fuel cp]
  obtain s where s: "run teardown_step (0, []) (snd (destroy fuel cp [])) = Some s"
    by (auto simp: within_def)
  from order_run[OF s, of "[]"] s show ?thesis
    by simp
qed

text \<open>A run on the simulated stack, with the kinds in the order of their deletes.\<close>

theorem teardown_order_witness:
  "deleted_kinds (snd (destroy 1 cp_stack []))
     = [ScalingGroup, LoadBalancer, TargetGroup, LaunchTemplate, SecurityGroup,
        Gateway, Subnet, Subnet, RouteTable, Network]
   \<and> (\<exists>s. run teardown_step (0, []) (snd (destroy 1 cp_stack [])) = Some s)
   \<and> (\<exists>gone. run reverse_dep_except_step [] (snd (destroy 1 cp_stack [])) = Some gone)"
proof -
  have "deleted_kinds (snd (destroy 1 cp_stack []))
     = [ScalingGroup, LoadBalancer, TargetGroup, LaunchTemplate, SecurityGroup,
        Gateway, Subnet, Subnet, RouteTable, Network]"
    by code_simp
  with teardown_order[of 1 cp_stack] show ?thesis by simp
qed

text \<open>
  C2, as stated, fails: the order is not the reverse of the dependencies throughout. On the
  simulated stack the gateway is deleted before the route table, which depended on it.
\<close>

theorem route_table_outlives_gateway:
  "fst (destroy 1 cp_stack []) = Done ()
   \<and> deleted_kinds (snd (destroy 1 cp_stack []))
     = [ScalingGroup, LoadBalancer, TargetGroup, LaunchTemplate, SecurityGroup,
        Gateway, Subnet, Subnet, RouteTable, Network]
   \<and> Gateway \<in> set (map fst (depends_on RouteTable))
   \<and> run reverse_dep_step [] (snd (destroy 1 cp_stack [])) = None"
  by code_simp

section \<open>Selection of what is deleted\<close>

lemma obeys_touching:
  assumes "only (touches_within S) m"
  shows "obeys (select_step rule) (\<lambda>s. S \<subseteq> set s) m (\<lambda>a s. S \<subseteq> set s) (\<lambda>x s. True)"
proof -
  have "obeys (select_step rule) (\<lambda>s. S \<subseteq> set s) m (\<lambda>a s. S \<subseteq> set s) (\<lambda>x s. S \<subseteq> set s)"
    using assms
  proof (rule only_obeys)
    fix s e assume "touches_within S e" "S \<subseteq> set s"
    then show "\<exists>s'. select_step rule s e = Some s' \<and> S \<subseteq> set s'"
      by (cases e) (auto simp: touches_within_def select_step_def list_all_iff
                         split: option.splits)
  qed
  then show ?thesis
    by (rule obeys_weaken) auto
qed

lemma obeys_listing:
  assumes "touched c = None" and "listed_kind c = Some (k, scope)"
    and "\<And>v. scope = Some v \<Longrightarrow> (Network, v) \<in> S"
  shows "obeys (select_step code_rule) (\<lambda>s. S \<subseteq> set s) (call cp c)
           (\<lambda>resp s. S \<union> chosen k (Items resp) \<subseteq> set s) (\<lambda>x s. True)"
proof (rule obeys_call)
  fix s p assume "S \<subseteq> set s"
  with assms show "\<exists>s'. select_step code_rule s (Call c (Return p)) = Some s'
                      \<and> S \<union> chosen k (Items p) \<subseteq> set s'"
    by (cases scope) (auto simp: select_step_def picked_def chosen_def)
next
  fix s e assume "S \<subseteq> set s"
  with assms show "\<exists>s'. select_step code_rule s (Call c (Raise e)) = Some s' \<and> True"
    by (cases scope) (auto simp: select_step_def picked_def)
qed

lemma touches_print [simp]: "touches_within S (Print s)"
  and touches_sleep [simp]: "touches_within S (Sleep n)"
  by (simp_all add: touches_within_def)

lemma touches_call: "touched c = Some rs \<Longrightarrow> set rs \<subseteq> S \<Longrightarrow> touches_within S (Call c r)"
  by (simp add: touches_within_def)

lemma chosenI: "x \<in> set xs \<Longrightarrow> code_rule k x \<Longrightarrow> (k, ident x) \<in> chosen k xs"
  by (auto simp: chosen_def)

lemma delete_asgs_selects:
  "obeys (select_step code_rule) (\<lambda>s. True) (delete_asgs cp) (\<lambda>a s. True) (\<lambda>x s. True)"
  unfolding delete_asgs_def Let_def
  apply (rule obeys_then[where Q = "\<lambda>s. {} \<subseteq> set s"])
   apply (rule obeys_weaken[OF obeys_touching[where S = "{}"]])
      apply (auto intro!: only_intros)[4]
  apply (rule obeys_bind)
   apply (rule obeys_listing[where k = ScalingGroup and scope = None])
     apply (simp_all add: touched_def listed_kind_def)[3]
  apply (rule obeys_weaken[OF obeys_touching])
     apply (auto intro!: only_intros touches_call chosenI simp: touched_def)
  done


lemma delete_target_groups_selects:
  "obeys (select_step code_rule) (\<lambda>s. True) (delete_target_groups fuel cp) (\<lambda>a s. True) (\<lambda>x s. True)"
  unfolding delete_target_groups_def Let_def
  apply (rule obeys_then[where Q = "\<lambda>s. {} \<subseteq> set s"])
   apply (rule obeys_weaken[OF obeys_touching[where S = "{}"]])
      apply (auto intro!: only_intros)[4]
  apply (rule obeys_bind)
   apply (rule obeys_listing[where k = TargetGroup and scope = None])
     apply (simp_all add: touched_def listed_kind_def)[3]
  apply (rule obeys_weaken[OF obeys_touching])
     apply (auto intro!: only_intros touches_call chosenI simp: touched_def)
  done

lemma delete_launch_templates_selects:
  "obeys (select_step code_rule) (\<lambda>s. True) (delete_launch_templates cp) (\<lambda>a s. True) (\<lambda>x s. True)"
  unfolding delete_launch_templates_def Let_def
  apply (rule obeys_then[where Q = "\<lambda>s. {} \<subseteq> set s"])
   apply (rule obeys_weaken[OF obeys_touching[where S = "{}"]])
      apply (auto intro!: only_intros)[4]
  apply (rule obeys_bind)
   apply (rule obeys_listing[where k = LaunchTemplate and scope = None])
     apply (simp_all add: touched_def listed_kind_def)[3]
  apply (rule obeys_weaken[OF obeys_touching])
     apply (auto intro!: only_intros touches_call chosenI simp: touched_def)
  done

lemma delete_security_groups_selects:
  "obeys (select_step code_rule) (\<lambda>s. True) (delete_security_groups fuel cp) (\<lambda>a s. True) (\<lambda>x s. True)"
  unfolding delete_security_groups_def Let_def
  apply (rule obeys_then[where Q = "\<lambda>s. {} \<subseteq> set s"])
   apply (rule obeys_weaken[OF obeys_touching[where S = "{}"]])
      apply (auto intro!: only_intros)[4]
  apply (rule obeys_bind)
   apply (rule obeys_listing[where k = SecurityGroup and scope = None])
     apply (simp_all add: touched_def listed_kind_def)[3]
  apply (rule obeys_weaken[OF obeys_touching])
     apply (auto intro!: only_intros touches_call chosenI simp: touched_def)
  done

lemma delete_nlbs_selects:
  "obeys (select_step code_rule) (\<lambda>s. True) (delete_nlbs cp) (\<lambda>a s. True) (\<lambda>x s. True)"
  unfolding delete_nlbs_def
  apply (rule obeys_then[where Q = "\<lambda>s. {} \<subseteq> set s"])
   apply (rule obeys_weaken[OF obeys_touching[where S = "{}"]])
      apply (auto intro!: only_intros)[4]
  apply (rule obeys_then[where Q = "\<lambda>s. {} \<subseteq> set s"])
   apply (rule obeys_bind)
    apply (rule obeys_listing[where k = LoadBalancer and scope = None])
      apply (simp_all add: touched_def listed_kind_def)[3]
   apply (rule obeys_weaken[OF obeys_touching])
      apply (auto intro!: only_intros touches_call chosenI simp: touched_def)[4]
  apply (rule obeys_weaken[OF obeys_touching[where S = "{}"]])
     apply (auto intro!: only_intros)
  done

lemma delete_igws_selects:
  assumes "(Network, v) \<in> T"
  shows "obeys (select_step code_rule) (\<lambda>s. T \<subseteq> set s) (delete_igws fuel cp v)
           (\<lambda>a s. T \<subseteq> set s) (\<lambda>x s. True)"
  unfolding delete_igws_def Let_def
  apply (rule obeys_bind)
   apply (rule obeys_listing[where k = Gateway and scope = "Some v"])
     apply (simp_all add: touched_def listed_kind_def assms)[3]
  subgoal for resp
    apply (rule obeys_weaken[OF obeys_touching[where S = "T \<union> chosen Gateway (Items resp)"]])
       apply (use assms in \<open>auto intro!: only_intros touches_call chosenI simp: touched_def\<close>)
    done
  done

lemma delete_subnets_selects:
  assumes "(Network, v) \<in> T"
  shows "obeys (select_step code_rule) (\<lambda>s. T \<subseteq> set s) (delete_subnets fuel cp v)
           (\<lambda>a s. T \<subseteq> set s) (\<lambda>x s. True)"
  unfolding delete_subnets_def Let_def
  apply (rule obeys_bind)
   apply (rule obeys_listing[where k = Subnet and scope = "Some v"])
     apply (simp_all add: touched_def listed_kind_def assms)[3]
  subgoal for resp
    apply (rule obeys_weaken[OF obeys_touching[where S = "T \<union> chosen Subnet (Items resp)"]])
       apply (use assms in \<open>auto intro!: only_intros touches_call chosenI simp: touched_def\<close>)
    done
  done

lemma delete_route_tables_selects:
  assumes "(Network, v) \<in> T"
  shows "obeys (select_step code_rule) (\<lambda>s. T \<subseteq> set s) (delete_route_tables fuel cp v)
           (\<lambda>a s. T \<subseteq> set s) (\<lambda>x s. True)"
  unfolding delete_route_tables_def Let_def
  apply (rule obeys_bind)
   apply (rule obeys_listing[where k = RouteTable and scope = "Some v"])
     apply (simp_all add: touched_def listed_kind_def assms)[3]
  subgoal for resp
    apply (rule obeys_weaken[OF obeys_touching[where S = "T \<union> chosen RouteTable (Items resp)"]])
       apply (use assms in \<open>auto intro!: only_intros touches_call chosenI simp: touched_def\<close>)
    done
  done

lemma delete_vpcs_selects:
  "obeys (select_step code_rule) (\<lambda>s. True) (delete_vpcs fuel cp) (\<lambda>a s. True) (\<lambda>x s. True)"
  unfolding delete_vpcs_def Let_def
  apply (rule obeys_then[where Q = "\<lambda>s. {} \<subseteq> set s"])
   apply (rule obeys_weaken[OF obeys_touching[where S = "{}"]])
      apply (auto intro!: only_intros)[4]
  apply (rule obeys_bind)
   apply (rule obeys_listing[where k = Network and scope = None])
     apply (simp_all add: touched_def listed_kind_def)[3]
  subgoal for resp
    apply (rule obeys_weaken[where P' = "\<lambda>s. chosen Network (Items resp) \<subseteq> set s"
            and Q' = "\<lambda>a s. chosen Network (Items resp) \<subseteq> set s" and X' = "\<lambda>x s. True"])
       apply (rule obeys_for_each)
       apply (rule obeys_when)
        apply (rule obeys_then[where Q = "\<lambda>s. chosen Network (Items resp) \<subseteq> set s"])
         apply (rule obeys_touching, auto intro!: only_intros)[1]
        apply (rule obeys_then[OF delete_igws_selects])
         apply (auto intro!: chosenI)[1]
        apply (rule obeys_then[OF delete_subnets_selects])
         apply (auto intro!: chosenI)[1]
        apply (rule obeys_then[OF delete_route_tables_selects])
         apply (auto intro!: chosenI)[1]
        apply (rule obeys_touching)
        apply (auto intro!: only_intros touches_call chosenI simp: touched_def)
    done
  done

lemma destroy_selects:
  "obeys (select_step code_rule) (\<lambda>s. True) (destroy fuel cp) (\<lambda>a s. True) (\<lambda>x s. True)"
  unfolding destroy_def
  apply (rule obeys_then[OF delete_asgs_selects])
  apply (rule obeys_then[OF delete_nlbs_selects])
  apply (rule obeys_then[OF delete_target_groups_selects])
  apply (rule obeys_then[OF delete_launch_templates_selects])
  apply (rule obeys_then[OF delete_security_groups_selects])
  apply (rule obeys_then[OF delete_vpcs_selects])
  apply (rule obeys_weaken[OF obeys_touching[where S = "{}"]])
     apply (auto intro!: only_intros)
  done

text \<open>
  The monitor does reject the delete of a security group without the tag, and the delete of
  a subnet that was listed for a network without the tag.
\<close>

lemma select_step_rejects:
  "run (select_step code_rule) []
     [Call DescribeSecurityGroups (Return (listing [foreign_resource ''sg-default''])),
      Call (DeleteSecurityGroup ''sg-default'') r] = None"
  "run (select_step code_rule) []
     [Call (DescribeSubnets ''vpc-default'') (Return (listing [stack_resource ''subnet-1''])),
      Call (DeleteSubnet ''subnet-1'') r] = None"
  by code_simp+

text \<open>
  C6, as amended. In every run of the reaper, whatever the control plane answers, a resource
  is deleted, detached or resized only if an earlier listing of the run selected it: a
  scaling group, a security group or a network by the stack tag; a load balancer, a launch
  template or a target group by the stack identity inside its name; a gateway or a subnet by
  being listed for a network that was selected; a route table by being listed for such a
  network with no main association.
\<close>

theorem deletes_only_selected:
  "\<exists>s. run (select_step code_rule) [] (snd (destroy fuel cp [])) = Some s"
  using obeys_run[OF destroy_selects, of "[]" fuel cp] by auto

text \<open>A run on the simulated stack, with the candidates it finds.\<close>

theorem deletes_only_selected_witness:
  "run (select_step code_rule) [] (snd (destroy 1 cp_stack []))
     = Some [(ScalingGroup, ''asg''), (LoadBalancer, ''nlb''), (TargetGroup, ''tg''),
             (LaunchTemplate, ''lt''), (SecurityGroup, ''sg''), (Network, ''vpc''),
             (Gateway, ''igw''), (Subnet, ''subnet-1''), (Subnet, ''subnet-x''),
             (RouteTable, ''rtb'')]"
proof -
  have "case run (select_step code_rule) [] (snd (destroy 1 cp_stack [])) of
          None \<Rightarrow> True
        | Some s \<Rightarrow> s = [(ScalingGroup, ''asg''), (LoadBalancer, ''nlb''), (TargetGroup, ''tg''),
             (LaunchTemplate, ''lt''), (SecurityGroup, ''sg''), (Network, ''vpc''),
             (Gateway, ''igw''), (Subnet, ''subnet-1''), (Subnet, ''subnet-x''),
             (RouteTable, ''rtb'')]"
    by code_simp
  with deletes_only_selected[of 1 cp_stack] show ?thesis by auto
qed



text \<open>
  C6, as stated, fails: the subnet \<^verbatim>\<open>subnet-x\<close> of the simulated stack carries no tag, and
  its name does not mention the stack, yet the reaper deletes it, for it lies in the tagged
  network.
\<close>

theorem untagged_subnet_deleted:
  "fst (destroy 1 cp_stack []) = Done ()
   \<and> issued (DeleteSubnet ''subnet-x'') (snd (destroy 1 cp_stack [])) = 1
   \<and> \<not> has_stack_tag (foreign_resource ''subnet-x'')
   \<and> \<not> sublist STACK (res_name (foreign_resource ''subnet-x''))
   \<and> run (select_step claimed_rule) [] (snd (destroy 1 cp_stack [])) = None"
  by code_simp

end
